theory Spec2Isabelle
  imports Complex_Main
begin

section \<open>Strings and numbers of the host language\<close>

text \<open>
  Addresses and hashes are ASCII strings, so a JavaScript string is modelled as a
  \<open>string\<close>. \<open>toLowerCase\<close> maps the letters A to Z to a to z and leaves every other
  character alone.
\<close>

definition toLowerCase_char :: "char \<Rightarrow> char" where
  "toLowerCase_char c =
     (let n = (of_char c :: nat) in if 65 \<le> n \<and> n \<le> 90 then char_of (n + 32) else c)"

definition toLowerCase :: "string \<Rightarrow> string" where
  "toLowerCase s = map toLowerCase_char s"

text \<open>
  \<open>s.slice(start, end)\<close>: a negative index counts from the end of the string, and both
  indices are clamped to the string. \<open>slice_from\<close> is the call with one argument.
\<close>

definition slice :: "string \<Rightarrow> int \<Rightarrow> int \<Rightarrow> string" where
  "slice s start end =
     (let len = int (length s);
          a = (if start < 0 then max (len + start) 0 else min start len);
          b = (if end < 0 then max (len + end) 0 else min end len)
      in take (nat (b - a)) (drop (nat a) s))"

definition slice_from :: "string \<Rightarrow> int \<Rightarrow> string" where
  "slice_from s start = slice s start (int (length s))"

text \<open>The decimal rendering of a non-negative number in a template literal.\<close>

fun toString :: "nat \<Rightarrow> string" where
  "toString n =
     (if n < 10 then [char_of (48 + n)]
      else toString (n div 10) @ [char_of (48 + n mod 10)])"

declare toString.simps [simp del]

text \<open>
  A value used as a condition: \<open>null\<close>, \<open>undefined\<close> and the empty string are falsy.
  \<open>truthy\<close> gives the string when the condition holds.
\<close>

definition truthy :: "string option \<Rightarrow> string option" where
  "truthy v = (case v of None \<Rightarrow> None | Some s \<Rightarrow> if s = [] then None else Some s)"

text \<open>\<open>[...new Set(xs)]\<close>: the elements of \<open>xs\<close> in the order of their first occurrence.\<close>

definition Set_add :: "'a \<Rightarrow> 'a list \<Rightarrow> 'a list" where
  "Set_add x acc = (if x \<in> set acc then acc else acc @ [x])"

definition Set_values :: "'a list \<Rightarrow> 'a list" where
  "Set_values xs = fold Set_add xs []"

section \<open>Fetched data and the graph description\<close>

text \<open>
  Of a log, a receipt and a transaction only the fields that the page reads are kept. The
  quantities (value, block number, gas) are \<open>bigint\<close> values decoded from unsigned RPC
  quantities, hence natural numbers. A node and an edge carry the fields that the page
  sets; a field that the page leaves out is \<open>None\<close>, and a style object is the list
  of its entries.
\<close>

record log =
  log_address :: string

record receipt =
  receipt_from :: string
  receipt_to :: "string option"
  receipt_logs :: "log list"
  receipt_blockNumber :: nat
  receipt_gasUsed :: nat
  receipt_effectiveGasPrice :: nat

record transaction =
  transaction_value :: nat

type_synonym css = "(string \<times> string) list"

record graph_node =
  node_id :: string
  node_position :: "nat \<times> nat"
  node_label :: string
  node_style :: "css option"

record graph_edge =
  edge_id :: string
  edge_source :: string
  edge_target :: string
  edge_animated :: "bool option"
  edge_style :: "css option"
  edge_label :: "string option"

section \<open>The conversion of wei to the display unit\<close>

text \<open>
  \<open>formatEther\<close> is imported from the RPC client library, which is not part of the
  sources. The four definitions of this section are modelled from the specification, which
  describes the conversion as 18-decimal fixed point: the arbitrary-precision integer is
  divided by \<open>10^18\<close> and written without loss.
\<close>

text \<open>
  Modelled from the spec: the library function that pads a string on the left, missing from
  the sources; used to write the remainder with all its decimals.
\<close>

definition padStart :: "nat \<Rightarrow> char \<Rightarrow> string \<Rightarrow> string" where
  "padStart n c s = replicate (n - length s) c @ s"

text \<open>
  Modelled from the spec: the removal of the zeros at the end of the fraction, part of the
  missing library function.
\<close>

definition strip_trailing_zeros :: "string \<Rightarrow> string" where
  "strip_trailing_zeros s = rev (dropWhile (\<lambda>c. c = CHR ''0'') (rev s))"

text \<open>
  Modelled from the spec: the library function \<open>formatUnits\<close>, missing from the sources.
  The quotient by \<open>10 ^ decimals\<close> is the integer part; the remainder, written with
  \<open>decimals\<close> digits and without its trailing zeros, is the fraction; the point is
  omitted when the fraction is empty.
\<close>

definition formatUnits :: "nat \<Rightarrow> nat \<Rightarrow> string" where
  "formatUnits v decimals =
     (let integer = toString (v div 10 ^ decimals);
          fraction = strip_trailing_zeros (padStart decimals (CHR ''0'') (toString (v mod 10 ^ decimals)))
      in integer @ (if fraction = [] then [] else CHR ''.'' # fraction))"

text \<open>
  Modelled from the spec: the library function \<open>formatEther\<close>, missing from the sources:
  the conversion of wei with 18 decimals.
\<close>

definition formatEther :: "nat \<Rightarrow> string" where
  "formatEther wei = formatUnits wei 18"

section \<open>The graph synthesizer with emission counts\<close>

text \<open>
  The first variant of \<open>fetchAndProcessTransaction\<close> counts the logs of every lowercased
  address, creates the sender node, the receiver node and one node for every lowercased log
  address that has no node yet, and then the edges. The body of the \<open>else\<close> branch is
  \<open>synthesize\<close>; its three steps are the three numbered steps of the source.
  \<open>get_count\<close> is \<open>logCounts.get(a) || 0\<close>, and \<open>short\<close> is the shortened address of
  the labels, \<open>a.slice(0, 6)\<close>, three dots and \<open>a.slice(-4)\<close>.
\<close>

definition get_count :: "(string \<rightharpoonup> nat) \<Rightarrow> string \<Rightarrow> nat" where
  "get_count logCounts a = (case logCounts a of None \<Rightarrow> 0 | Some c \<Rightarrow> c)"

definition count_log :: "log \<Rightarrow> (string \<rightharpoonup> nat) \<Rightarrow> (string \<rightharpoonup> nat)" where
  "count_log l logCounts =
     (let count = get_count logCounts (toLowerCase (log_address l))
      in logCounts(toLowerCase (log_address l) \<mapsto> count + 1))"

definition count_logs :: "log list \<Rightarrow> (string \<rightharpoonup> nat)" where
  "count_logs logs = fold count_log logs Map.empty"

definition short :: "string \<Rightarrow> string" where
  "short a = slice a 0 6 @ ''...'' @ slice_from a (- 4)"

definition weighted_style :: "nat \<Rightarrow> css" where
  "weighted_style count =
     [(''backgroundColor'', ''#f5a623''), (''color'', ''black''),
      (''width'', toString (150 + count * 5) @ ''px''),
      (''height'', toString (60 + count * 2) @ ''px''),
      (''textAlign'', ''center'')]"

definition sender_node :: "receipt \<Rightarrow> graph_node" where
  "sender_node r =
     \<lparr> node_id = toLowerCase (receipt_from r), node_position = (50, 200),
       node_label = ''From: '' @ short (receipt_from r),
       node_style = Some [(''backgroundColor'', ''#50e3c2''), (''color'', ''black'')] \<rparr>"

definition receiver_node :: "(string \<rightharpoonup> nat) \<Rightarrow> string \<Rightarrow> graph_node" where
  "receiver_node logCounts to =
     (let toAddress = toLowerCase to; count = get_count logCounts toAddress
      in \<lparr> node_id = toAddress, node_position = (300, 200),
           node_label = ''To: '' @ short to @ [CHR 0x0A] @ ''Events: '' @ toString count,
           node_style = Some (if count > 0 then weighted_style count else []) \<rparr>)"

definition contract_node :: "(string \<rightharpoonup> nat) \<Rightarrow> string \<Rightarrow> nat \<Rightarrow> graph_node" where
  "contract_node logCounts logAddress index =
     (let count = get_count logCounts logAddress
      in \<lparr> node_id = logAddress, node_position = (550, 50 + index * 120),
           node_label = ''Contract: '' @ short logAddress @ [CHR 0x0A] @ ''Events: '' @ toString count,
           node_style = Some (weighted_style count) \<rparr>)"

text \<open>
  The loop over \<open>uniqueLogAddresses\<close>, with the node list and the address map as its
  state and the position in the list as \<open>index\<close>.
\<close>

fun contract_nodes ::
  "(string \<rightharpoonup> nat) \<Rightarrow> nat \<Rightarrow> string list \<Rightarrow> graph_node list \<times> (string \<rightharpoonup> bool)
     \<Rightarrow> graph_node list \<times> (string \<rightharpoonup> bool)" where
  "contract_nodes logCounts index [] st = st"
| "contract_nodes logCounts index (logAddress # rest) (newNodes, addressMap) =
     contract_nodes logCounts (index + 1) rest
       (if addressMap logAddress = None
        then (newNodes @ [contract_node logCounts logAddress index], addressMap(logAddress \<mapsto> True))
        else (newNodes, addressMap))"

definition uniqueLogAddresses :: "receipt \<Rightarrow> string list" where
  "uniqueLogAddresses r = Set_values (map (\<lambda>l. toLowerCase (log_address l)) (receipt_logs r))"

definition step2_nodes :: "receipt \<Rightarrow> graph_node list" where
  "step2_nodes r =
     (let logCounts = count_logs (receipt_logs r);
          fromAddress = toLowerCase (receipt_from r);
          st0 = ([sender_node r], Map.empty(fromAddress \<mapsto> True));
          st1 = (case truthy (receipt_to r) of
                   None \<Rightarrow> st0
                 | Some to \<Rightarrow> (fst st0 @ [receiver_node logCounts to],
                               (snd st0)(toLowerCase to \<mapsto> True)))
      in fst (contract_nodes logCounts 0 (uniqueLogAddresses r) st1))"

definition sender_edge :: "receipt \<Rightarrow> transaction \<Rightarrow> string \<Rightarrow> graph_edge" where
  "sender_edge r t to =
     \<lparr> edge_id = ''e-'' @ receipt_from r @ ''-'' @ to,
       edge_source = toLowerCase (receipt_from r), edge_target = toLowerCase to,
       edge_animated = Some True, edge_style = Some [(''strokeWidth'', ''2'')],
       edge_label = Some (formatEther (transaction_value t) @ '' ETH'') \<rparr>"

definition contract_edge :: "string \<Rightarrow> string \<Rightarrow> graph_edge" where
  "contract_edge to logAddress =
     \<lparr> edge_id = ''e-main-'' @ to @ ''-'' @ logAddress,
       edge_source = toLowerCase to, edge_target = logAddress,
       edge_animated = None, edge_style = None, edge_label = None \<rparr>"

definition step3_edges :: "receipt \<Rightarrow> transaction \<Rightarrow> graph_edge list" where
  "step3_edges r t =
     (case truthy (receipt_to r) of
        None \<Rightarrow> []
      | Some to \<Rightarrow>
          sender_edge r t to #
          map (contract_edge to) (filter (\<lambda>logAddress. logAddress \<noteq> toLowerCase to) (uniqueLogAddresses r)))"

definition synthesize :: "receipt \<Rightarrow> transaction \<Rightarrow> graph_node list \<times> graph_edge list" where
  "synthesize r t = (step2_nodes r, step3_edges r t)"

section \<open>The graph synthesizer with one edge per log\<close>

text \<open>
  The second variant of \<open>fetchAndProcessTransaction\<close> (the page component) uses the
  addresses as they are fetched, has no emission counts, and visits every log once: a node
  for an address that has none yet, and an edge from the receiver when there is one.
\<close>

definition page_sender_node :: "receipt \<Rightarrow> graph_node" where
  "page_sender_node r =
     \<lparr> node_id = receipt_from r, node_position = (50, 200),
       node_label = ''From: '' @ short (receipt_from r),
       node_style = Some [(''backgroundColor'', ''#50e3c2''), (''color'', ''black'')] \<rparr>"

definition page_receiver_node :: "string \<Rightarrow> graph_node" where
  "page_receiver_node to =
     \<lparr> node_id = to, node_position = (300, 200),
       node_label = ''To: '' @ short to, node_style = None \<rparr>"

definition page_sender_edge :: "receipt \<Rightarrow> transaction \<Rightarrow> string \<Rightarrow> graph_edge" where
  "page_sender_edge r t to =
     \<lparr> edge_id = ''e-'' @ receipt_from r @ ''-'' @ to,
       edge_source = receipt_from r, edge_target = to,
       edge_animated = Some True, edge_style = Some [(''strokeWidth'', ''2'')],
       edge_label = Some (formatEther (transaction_value t) @ '' ETH'') \<rparr>"

definition page_contract_node :: "string \<Rightarrow> nat \<Rightarrow> graph_node" where
  "page_contract_node a index =
     \<lparr> node_id = a, node_position = (550, 100 + index * 100),
       node_label = ''Contract: '' @ short a,
       node_style = Some [(''backgroundColor'', ''#f5a623''), (''color'', ''black'')] \<rparr>"

definition page_log_edge :: "string \<Rightarrow> string \<Rightarrow> nat \<Rightarrow> graph_edge" where
  "page_log_edge to a index =
     \<lparr> edge_id = ''e-log-'' @ to @ ''-'' @ a @ ''-'' @ toString index,
       edge_source = to, edge_target = a,
       edge_animated = None, edge_style = None,
       edge_label = Some (''Event #'' @ toString (index + 1)) \<rparr>"

type_synonym page_acc = "graph_node list \<times> graph_edge list \<times> (string \<rightharpoonup> bool)"

fun page_logs :: "string option \<Rightarrow> nat \<Rightarrow> log list \<Rightarrow> page_acc \<Rightarrow> page_acc" where
  "page_logs to index [] st = st"
| "page_logs to index (l # rest) (newNodes, newEdges, addressMap) =
     (let (newNodes', addressMap') =
            (if addressMap (log_address l) = None
             then (newNodes @ [page_contract_node (log_address l) index],
                   addressMap(log_address l \<mapsto> True))
             else (newNodes, addressMap));
          newEdges' =
            (case to of
               None \<Rightarrow> newEdges
             | Some a \<Rightarrow> newEdges @ [page_log_edge a (log_address l) index])
      in page_logs to (index + 1) rest (newNodes', newEdges', addressMap'))"

definition page_synthesize :: "receipt \<Rightarrow> transaction \<Rightarrow> graph_node list \<times> graph_edge list" where
  "page_synthesize r t =
     (let st0 = ([page_sender_node r], [], Map.empty(receipt_from r \<mapsto> True));
          st1 = (case truthy (receipt_to r) of
                   None \<Rightarrow> st0
                 | Some to \<Rightarrow> ([page_sender_node r, page_receiver_node to],
                               [page_sender_edge r t to],
                               Map.empty(receipt_from r \<mapsto> True, to \<mapsto> True)));
          (newNodes, newEdges, addressMap) = page_logs (truthy (receipt_to r)) 0 (receipt_logs r) st1
      in (newNodes, newEdges))"

section \<open>The state of the page, the handlers and the effect\<close>

text \<open>
  The five messages of the page are Japanese sentences; they are pairwise different, and
  only which one is shown matters here:
  \<^item> \<open>Msg_url_missing\<close>: the endpoint URL is not configured;
  \<^item> \<open>Msg_info_not_found\<close>: the information of the transaction was not found
    (the transaction or the receipt resolved to nothing);
  \<^item> \<open>Msg_tx_not_found\<close>: the transaction was not found
    (a thrown \<open>TransactionNotFoundError\<close>);
  \<^item> \<open>Msg_unexpected\<close>: an unexpected error occurred;
  \<^item> \<open>Msg_bad_format\<close>: the input is not in the form of a transaction hash.
\<close>

datatype message =
  Msg_url_missing | Msg_info_not_found | Msg_tx_not_found | Msg_unexpected | Msg_bad_format

record txInfo =
  txInfo_from :: string
  txInfo_to :: "string option"
  txInfo_logsCount :: nat
  txInfo_value :: nat
  txInfo_blockNumber :: nat
  txInfo_gasUsed :: nat
  txInfo_effectiveGasPrice :: nat

record state =
  inputHash :: string
  targetHash :: "string option"
  txInfo :: "txInfo option"
  isLoading :: bool
  error :: "message option"
  nodes :: "graph_node list"
  edges :: "graph_edge list"

text \<open>
  What the two requests can do: a promise is fulfilled with a value or rejected with a
  thrown value, which is an \<open>Error\<close> with a name or something else. \<open>Promise.all\<close> is
  fulfilled when both are, and rejected with the rejection that comes first otherwise;
  when both reject, \<open>receipt_first\<close> says which one came first.
\<close>

datatype thrown = Error_named string | Not_an_Error

datatype 'a settled = Fulfilled 'a | Rejected thrown

record client =
  ALCHEMY_URL :: "string option"
  getTransaction :: "string \<Rightarrow> transaction option settled"
  getTransactionReceipt :: "string \<Rightarrow> receipt option settled"
  receipt_first :: bool

datatype request = GetTransaction string | GetTransactionReceipt string

definition Promise_all :: "bool \<Rightarrow> 'a settled \<Rightarrow> 'b settled \<Rightarrow> ('a \<times> 'b) settled" where
  "Promise_all second_first p q =
     (case p of
        Fulfilled a \<Rightarrow> (case q of Fulfilled b \<Rightarrow> Fulfilled (a, b) | Rejected e \<Rightarrow> Rejected e)
      | Rejected e \<Rightarrow>
          (case q of
             Fulfilled b \<Rightarrow> Rejected e
           | Rejected e' \<Rightarrow> Rejected (if second_first then e' else e)))"

definition make_txInfo :: "receipt \<Rightarrow> transaction \<Rightarrow> txInfo" where
  "make_txInfo r t =
     \<lparr> txInfo_from = receipt_from r, txInfo_to = receipt_to r,
       txInfo_logsCount = length (receipt_logs r), txInfo_value = transaction_value t,
       txInfo_blockNumber = receipt_blockNumber r, txInfo_gasUsed = receipt_gasUsed r,
       txInfo_effectiveGasPrice = receipt_effectiveGasPrice r \<rparr>"

definition catch_message :: "thrown \<Rightarrow> message" where
  "catch_message err =
     (case err of
        Error_named name \<Rightarrow>
          if name = ''TransactionNotFoundError'' then Msg_tx_not_found else Msg_unexpected
      | Not_an_Error \<Rightarrow> Msg_unexpected)"

text \<open>
  \<open>fetchAndProcessTransaction\<close> is the same in both files up to the synthesis of the
  graph, which is the parameter \<open>synth\<close>. It returns the new state and the requests it
  has sent.
\<close>

definition fetchAndProcessTransaction ::
  "(receipt \<Rightarrow> transaction \<Rightarrow> graph_node list \<times> graph_edge list) \<Rightarrow> client \<Rightarrow> string \<Rightarrow> state
     \<Rightarrow> state \<times> request list" where
  "fetchAndProcessTransaction synth env hash s =
     (let s1 = s\<lparr> isLoading := True, error := None, txInfo := None, nodes := [], edges := [] \<rparr>
      in if truthy (ALCHEMY_URL env) = None
         then (s1\<lparr> error := Some Msg_url_missing, isLoading := False \<rparr>, [])
         else
           (case Promise_all (receipt_first env)
                   (getTransaction env hash) (getTransactionReceipt env hash) of
              Fulfilled (transaction, receipt) \<Rightarrow>
                (case receipt of
                   None \<Rightarrow> s1\<lparr> error := Some Msg_info_not_found, isLoading := False \<rparr>
                 | Some r \<Rightarrow>
                     (case transaction of
                        None \<Rightarrow> s1\<lparr> error := Some Msg_info_not_found, isLoading := False \<rparr>
                      | Some t \<Rightarrow>
                          s1\<lparr> txInfo := Some (make_txInfo r t),
                              nodes := fst (synth r t), edges := snd (synth r t),
                              isLoading := False \<rparr>))
            | Rejected err \<Rightarrow> s1\<lparr> error := Some (catch_message err), isLoading := False \<rparr>,
            [GetTransaction hash, GetTransactionReceipt hash]))"

text \<open>The test of the regular expression \<open>^0x[a-fA-F0-9]{64}$\<close>.\<close>

definition hex_class :: "char \<Rightarrow> bool" where
  "hex_class c =
     (let n = (of_char c :: nat)
      in (97 \<le> n \<and> n \<le> 102) \<or> (65 \<le> n \<and> n \<le> 70) \<or> (48 \<le> n \<and> n \<le> 57))"

definition hash_pattern_test :: "string \<Rightarrow> bool" where
  "hash_pattern_test s =
     (case s of
        c0 # c1 # rest \<Rightarrow>
          c0 = CHR ''0'' \<and> c1 = CHR ''x'' \<and> length rest = 64 \<and> list_all hex_class rest
      | _ \<Rightarrow> False)"

definition handleAnalyse :: "state \<Rightarrow> state" where
  "handleAnalyse s =
     (let s1 = s\<lparr> error := None \<rparr>
      in if inputHash s \<noteq> [] \<and> hash_pattern_test (inputHash s)
         then s1\<lparr> targetHash := Some (inputHash s) \<rparr>
         else s1\<lparr> error := Some Msg_bad_format, targetHash := None, txInfo := None,
                  nodes := [], edges := [] \<rparr>)"

definition handleReset :: "state \<Rightarrow> state" where
  "handleReset s =
     s\<lparr> inputHash := [], targetHash := None, txInfo := None, error := None,
        nodes := [], edges := [] \<rparr>"

text \<open>
  The effect depends on \<open>targetHash\<close>: after a render in which \<open>targetHash\<close> differs from
  the one of the render before, it returns at once when there is no target hash and calls
  \<open>fetchAndProcessTransaction\<close> otherwise.
\<close>

definition useEffect_targetHash ::
  "(receipt \<Rightarrow> transaction \<Rightarrow> graph_node list \<times> graph_edge list) \<Rightarrow> client \<Rightarrow> string option \<Rightarrow> state
     \<Rightarrow> state \<times> request list" where
  "useEffect_targetHash synth env previous s =
     (if targetHash s = previous then (s, [])
      else (case truthy (targetHash s) of
              None \<Rightarrow> (s, [])
            | Some hash \<Rightarrow> fetchAndProcessTransaction synth env hash s))"

text \<open>One click on the analyse button: the handler, then the effect of the next render.\<close>

definition analyse ::
  "(receipt \<Rightarrow> transaction \<Rightarrow> graph_node list \<times> graph_edge list) \<Rightarrow> client \<Rightarrow> state
     \<Rightarrow> state \<times> request list" where
  "analyse synth env s = useEffect_targetHash synth env (targetHash s) (handleAnalyse s)"

subsection \<open>What is rendered\<close>

record summary =
  shown_blockNumber :: string
  shown_from :: string
  shown_to :: string
  shown_value :: string
  shown_fee :: string
  shown_logsCount :: string

definition render_summary :: "state \<Rightarrow> summary option" where
  "render_summary s =
     (if \<not> isLoading s \<and> error s = None
      then (case txInfo s of
              None \<Rightarrow> None
            | Some ti \<Rightarrow>
                Some \<lparr> shown_blockNumber = toString (txInfo_blockNumber ti),
                       shown_from = txInfo_from ti,
                       shown_to = (case truthy (txInfo_to ti) of
                                     None \<Rightarrow> ''N/A (Contract Creation)''
                                   | Some a \<Rightarrow> a),
                       shown_value = formatEther (txInfo_value ti),
                       shown_fee = formatEther (txInfo_gasUsed ti * txInfo_effectiveGasPrice ti),
                       shown_logsCount = toString (txInfo_logsCount ti) \<rparr>)
      else None)"

datatype flow_view = Placeholder | Diagram "graph_node list" "graph_edge list"

definition FlowChart :: "graph_node list \<Rightarrow> graph_edge list \<Rightarrow> flow_view" where
  "FlowChart ns es = (if length ns = 0 then Placeholder else Diagram ns es)"

section \<open>The notions of the specification\<close>

text \<open>
  The format of a transaction hash as the specification words it: \<open>0x\<close> followed by
  exactly 64 hexadecimal characters, in either case.
\<close>

definition hash_format :: "string \<Rightarrow> bool" where
  "hash_format s \<longleftrightarrow>
     take 2 s = ''0x'' \<and> length (drop 2 s) = 64 \<and>
     set (drop 2 s) \<subseteq> set ''0123456789abcdefABCDEF''"

text \<open>
  The addresses of a receipt: the sender, the receiver when there is one, and the emitters
  of the logs.
\<close>

definition addresses :: "receipt \<Rightarrow> string set" where
  "addresses r =
     insert (receipt_from r)
       (set_option (truthy (receipt_to r)) \<union> log_address ` set (receipt_logs r))"

text \<open>Nothing of an earlier analysis is left: no summary fields and no graph.\<close>

definition no_result :: "state \<Rightarrow> bool" where
  "no_result s \<longleftrightarrow> txInfo s = None \<and> nodes s = [] \<and> edges s = []"

text \<open>
  The number that a decimal numeral denotes: the digits before the point, plus the digits
  after it divided by the matching power of ten.
\<close>

definition digit_value :: "char \<Rightarrow> nat" where
  "digit_value c = of_char c - 48"

definition digits_value :: "string \<Rightarrow> nat" where
  "digits_value ds = foldl (\<lambda>a c. 10 * a + digit_value c) 0 ds"

definition decimal_value :: "string \<Rightarrow> rat" where
  "decimal_value s =
     (let i = takeWhile (\<lambda>c. c \<noteq> CHR ''.'') s;
          f = drop 1 (dropWhile (\<lambda>c. c \<noteq> CHR ''.'') s)
      in of_nat (digits_value i) + of_nat (digits_value f) / 10 ^ length f)"

section \<open>Example inputs\<close>

text \<open>
  A contract creation (no receiver) with two logs of one contract written in two cases, a
  call whose logs come from a contract twice, from the receiver and from another contract,
  a transfer of an account to itself, the same transfer with two logs of one contract
  written in two cases, a call with two logs of one contract, and a call with logs of two
  contracts, one of them twice.
\<close>

definition creation_receipt :: receipt where
  "creation_receipt =
     \<lparr> receipt_from = ''0xAa01'', receipt_to = None,
       receipt_logs = [\<lparr> log_address = ''0xC0de'' \<rparr>, \<lparr> log_address = ''0xc0DE'' \<rparr>],
       receipt_blockNumber = 7, receipt_gasUsed = 21000, receipt_effectiveGasPrice = 3 \<rparr>"

definition call_receipt :: receipt where
  "call_receipt =
     \<lparr> receipt_from = ''0xAa01'', receipt_to = Some ''0xBb02'',
       receipt_logs = [\<lparr> log_address = ''0xC0de'' \<rparr>, \<lparr> log_address = ''0xc0DE'' \<rparr>,
                       \<lparr> log_address = ''0xBb02'' \<rparr>, \<lparr> log_address = ''0xd00d'' \<rparr>],
       receipt_blockNumber = 7, receipt_gasUsed = 21000, receipt_effectiveGasPrice = 3 \<rparr>"

definition self_receipt :: receipt where
  "self_receipt =
     \<lparr> receipt_from = ''0xAa01'', receipt_to = Some ''0xAa01'', receipt_logs = [],
       receipt_blockNumber = 7, receipt_gasUsed = 21000, receipt_effectiveGasPrice = 3 \<rparr>"

definition self_log_receipt :: receipt where
  "self_log_receipt =
     \<lparr> receipt_from = ''0xAa01'', receipt_to = Some ''0xAa01'',
       receipt_logs = [\<lparr> log_address = ''0xC0de'' \<rparr>, \<lparr> log_address = ''0xc0DE'' \<rparr>],
       receipt_blockNumber = 7, receipt_gasUsed = 21000, receipt_effectiveGasPrice = 3 \<rparr>"

definition repeated_log_receipt :: receipt where
  "repeated_log_receipt =
     \<lparr> receipt_from = ''0xa1'', receipt_to = Some ''0xf4'',
       receipt_logs = [\<lparr> log_address = ''0xc3'' \<rparr>, \<lparr> log_address = ''0xc3'' \<rparr>],
       receipt_blockNumber = 7, receipt_gasUsed = 21000, receipt_effectiveGasPrice = 3 \<rparr>"

definition three_log_receipt :: receipt where
  "three_log_receipt =
     \<lparr> receipt_from = ''0xa1'', receipt_to = Some ''0xf4'',
       receipt_logs = [\<lparr> log_address = ''0xC3'' \<rparr>, \<lparr> log_address = ''0xC3'' \<rparr>,
                       \<lparr> log_address = ''0xb2'' \<rparr>],
       receipt_blockNumber = 7, receipt_gasUsed = 21000, receipt_effectiveGasPrice = 3 \<rparr>"

definition one_ether :: transaction where
  "one_ether = \<lparr> transaction_value = 1000000000000000000 \<rparr>"

definition good_hash :: string where
  "good_hash = ''0x'' @ replicate 64 (CHR ''a'')"

text \<open>A page that shows the result of an earlier analysis, with a malformed input typed in.\<close>

definition stale_state :: state where
  "stale_state =
     \<lparr> inputHash = ''0x12'', targetHash = Some (''0x'' @ replicate 64 (CHR ''B'')),
       txInfo = Some (make_txInfo call_receipt one_ether), isLoading = False, error = None,
       nodes = fst (synthesize call_receipt one_ether),
       edges = snd (synthesize call_receipt one_ether) \<rparr>"

text \<open>
  Clients: one without an endpoint URL, one whose transaction request fails as not found
  while the receipt request resolves, one whose requests both fail in the transport, one
  whose requests resolve to nothing, and one that serves the contract creation.
\<close>

definition unconfigured_client :: client where
  "unconfigured_client =
     \<lparr> ALCHEMY_URL = None,
       getTransaction = (\<lambda>h. Fulfilled (Some one_ether)),
       getTransactionReceipt = (\<lambda>h. Fulfilled (Some call_receipt)),
       receipt_first = False \<rparr>"

definition not_found_client :: client where
  "not_found_client =
     \<lparr> ALCHEMY_URL = Some ''https://rpc.example'',
       getTransaction = (\<lambda>h. Rejected (Error_named ''TransactionNotFoundError'')),
       getTransactionReceipt = (\<lambda>h. Fulfilled (Some call_receipt)),
       receipt_first = False \<rparr>"

definition failing_client :: client where
  "failing_client =
     \<lparr> ALCHEMY_URL = Some ''https://rpc.example'',
       getTransaction = (\<lambda>h. Rejected (Error_named ''HttpRequestError'')),
       getTransactionReceipt = (\<lambda>h. Rejected (Error_named ''HttpRequestError'')),
       receipt_first = True \<rparr>"

definition empty_client :: client where
  "empty_client =
     \<lparr> ALCHEMY_URL = Some ''https://rpc.example'',
       getTransaction = (\<lambda>h. Fulfilled None),
       getTransactionReceipt = (\<lambda>h. Fulfilled None),
       receipt_first = False \<rparr>"

definition creation_client :: client where
  "creation_client =
     \<lparr> ALCHEMY_URL = Some ''https://rpc.example'',
       getTransaction = (\<lambda>h. Fulfilled (Some one_ether)),
       getTransactionReceipt = (\<lambda>h. Fulfilled (Some creation_receipt)),
       receipt_first = False \<rparr>"

section \<open>Facts about the loops\<close>

lemma set_fold_Set_add: "set (fold Set_add xs acc) = set acc \<union> set xs"
  by (induction xs arbitrary: acc) (auto simp: Set_add_def)

lemma distinct_fold_Set_add: "distinct acc \<Longrightarrow> distinct (fold Set_add xs acc)"
  by (induction xs arbitrary: acc) (auto simp: Set_add_def)

lemma set_Set_values: "set (Set_values xs) = set xs"
  by (simp add: Set_values_def set_fold_Set_add)

lemma distinct_Set_values: "distinct (Set_values xs)"
  by (simp add: Set_values_def distinct_fold_Set_add)

lemma set_uniqueLogAddresses:
  "set (uniqueLogAddresses r) = (\<lambda>l. toLowerCase (log_address l)) ` set (receipt_logs r)"
  by (simp add: uniqueLogAddresses_def set_Set_values)

lemma distinct_uniqueLogAddresses: "distinct (uniqueLogAddresses r)"
  by (simp add: uniqueLogAddresses_def distinct_Set_values)

lemma node_id_contract_node [simp]: "node_id (contract_node lc a i) = a"
  by (simp add: contract_node_def Let_def)

lemma node_id_receiver_node [simp]: "node_id (receiver_node lc to) = toLowerCase to"
  by (simp add: receiver_node_def Let_def)

lemma node_id_sender_node [simp]: "node_id (sender_node r) = toLowerCase (receipt_from r)"
  by (simp add: sender_node_def)

lemma contract_nodes_ids:
  "distinct xs \<Longrightarrow>
   map node_id (fst (contract_nodes lc i xs (ns, am))) =
     map node_id ns @ filter (\<lambda>a. am a = None) xs"
proof (induction xs arbitrary: i ns am)
  case Nil
  then show ?case by simp
next
  case (Cons x xs)
  from Cons.prems have dxs: "distinct xs" and nx: "x \<notin> set xs" by simp_all
  show ?case
  proof (cases "am x = None")
    case True
    have same: "filter (\<lambda>a. (am(x \<mapsto> True)) a = None) xs = filter (\<lambda>a. am a = None) xs"
      using nx by (intro filter_cong) auto
    have "contract_nodes lc i (x # xs) (ns, am) =
          contract_nodes lc (i + 1) xs (ns @ [contract_node lc x i], am(x \<mapsto> True))"
      using True by (simp del: fun_upd_apply)
    moreover have "map node_id (fst (contract_nodes lc (i + 1) xs
                     (ns @ [contract_node lc x i], am(x \<mapsto> True)))) =
          map node_id (ns @ [contract_node lc x i]) @
          filter (\<lambda>a. (am(x \<mapsto> True)) a = None) xs"
      by (rule Cons.IH [OF dxs])
    ultimately show ?thesis
      using True by (simp add: same del: fun_upd_apply)
  next
    case False
    then show ?thesis
      using Cons.IH [OF dxs, of "i + 1" ns am] by auto
  qed
qed

lemma step2_nodes_ids_None:
  "truthy (receipt_to r) = None \<Longrightarrow>
   map node_id (step2_nodes r) =
     toLowerCase (receipt_from r) #
     filter (\<lambda>a. a \<noteq> toLowerCase (receipt_from r)) (uniqueLogAddresses r)"
  by (simp add: step2_nodes_def Let_def contract_nodes_ids distinct_uniqueLogAddresses)

lemma step2_nodes_ids_Some:
  assumes "truthy (receipt_to r) = Some to"
  shows "map node_id (step2_nodes r) =
     toLowerCase (receipt_from r) # toLowerCase to #
     filter (\<lambda>a. a \<noteq> toLowerCase (receipt_from r) \<and> a \<noteq> toLowerCase to) (uniqueLogAddresses r)"
proof -
  have "filter (\<lambda>a. (if a = toLowerCase to then Some True
                        else (Map.empty(toLowerCase (receipt_from r) \<mapsto> True)) a) = None)
          (uniqueLogAddresses r) =
        filter (\<lambda>a. a \<noteq> toLowerCase (receipt_from r) \<and> a \<noteq> toLowerCase to)
          (uniqueLogAddresses r)"
    by (rule filter_cong) auto
  then show ?thesis
    using assms
    by (simp add: step2_nodes_def Let_def contract_nodes_ids distinct_uniqueLogAddresses)
qed


lemma node_id_page_contract_node [simp]: "node_id (page_contract_node a i) = a"
  by (simp add: page_contract_node_def)

lemma page_logs_Cons_new:
  "am (log_address l) = None \<Longrightarrow>
   page_logs to i (l # ls) (ns, es, am) =
     page_logs to (i + 1) ls
       (ns @ [page_contract_node (log_address l) i],
        (case to of None \<Rightarrow> es | Some a \<Rightarrow> es @ [page_log_edge a (log_address l) i]),
        am(log_address l \<mapsto> True))"
  by (simp del: fun_upd_apply)

lemma page_logs_Cons_old:
  "am (log_address l) \<noteq> None \<Longrightarrow>
   page_logs to i (l # ls) (ns, es, am) =
     page_logs to (i + 1) ls
       (ns, (case to of None \<Rightarrow> es | Some a \<Rightarrow> es @ [page_log_edge a (log_address l) i]), am)"
  by auto

lemma page_logs_edges:
  "fst (snd (page_logs to i ls (ns, es, am))) =
     es @ (case to of
             None \<Rightarrow> []
           | Some a \<Rightarrow> map (\<lambda>(k, l). page_log_edge a (log_address l) k) (List.enumerate i ls))"
proof (induction ls arbitrary: i ns es am)
  case Nil
  then show ?case by (simp split: option.split)
next
  case (Cons l ls)
  show ?case
  proof (cases "am (log_address l) = None")
    case True
    show ?thesis
      unfolding page_logs_Cons_new [of am l, OF True] Cons.IH
      by (simp split: option.split)
  next
    case False
    show ?thesis
      unfolding page_logs_Cons_old [of am l, OF False] Cons.IH
      by (simp split: option.split)
  qed
qed

lemma page_logs_ids:
  "dom am = set (map node_id ns) \<Longrightarrow> distinct (map node_id ns) \<Longrightarrow>
   set (map node_id (fst (page_logs to i ls (ns, es, am)))) =
     set (map node_id ns) \<union> log_address ` set ls \<and>
   distinct (map node_id (fst (page_logs to i ls (ns, es, am))))"
proof (induction ls arbitrary: i ns es am)
  case Nil
  then show ?case by simp
next
  case (Cons l ls)
  show ?case
  proof (cases "am (log_address l) = None")
    case True
    then have "log_address l \<notin> dom am"
      by (simp add: domIff)
    then have fresh: "log_address l \<notin> set (map node_id ns)"
      using Cons.prems(1) by simp
    have d: "dom (am(log_address l \<mapsto> True)) =
             set (map node_id (ns @ [page_contract_node (log_address l) i]))"
      using Cons.prems(1) by simp
    have e: "distinct (map node_id (ns @ [page_contract_node (log_address l) i]))"
      using Cons.prems(2) fresh by simp
    define es' where
      "es' = (case to of None \<Rightarrow> es | Some a \<Rightarrow> es @ [page_log_edge a (log_address l) i])"
    have "set (map node_id (fst (page_logs to (i + 1) ls
             (ns @ [page_contract_node (log_address l) i], es', am(log_address l \<mapsto> True))))) =
          set (map node_id (ns @ [page_contract_node (log_address l) i])) \<union> log_address ` set ls \<and>
          distinct (map node_id (fst (page_logs to (i + 1) ls
             (ns @ [page_contract_node (log_address l) i], es', am(log_address l \<mapsto> True)))))"
      by (rule Cons.IH [OF d e])
    then show ?thesis
      unfolding page_logs_Cons_new [of am l, OF True] es'_def [symmetric]
      by (auto simp del: fun_upd_apply)
  next
    case False
    then have "log_address l \<in> dom am"
      by (simp add: domIff)
    then have old: "log_address l \<in> set (map node_id ns)"
      using Cons.prems(1) by simp
    define es' where
      "es' = (case to of None \<Rightarrow> es | Some a \<Rightarrow> es @ [page_log_edge a (log_address l) i])"
    have "set (map node_id (fst (page_logs to (i + 1) ls (ns, es', am)))) =
          set (map node_id ns) \<union> log_address ` set ls \<and>
          distinct (map node_id (fst (page_logs to (i + 1) ls (ns, es', am))))"
      by (rule Cons.IH [OF Cons.prems])
    then show ?thesis
      unfolding page_logs_Cons_old [of am l, OF False] es'_def [symmetric]
      using old by auto
  qed
qed

lemma page_logs_ids_set:
  "dom am = set (map node_id ns) \<Longrightarrow>
   set (map node_id (fst (page_logs to i ls (ns, es, am)))) =
     set (map node_id ns) \<union> log_address ` set ls"
proof (induction ls arbitrary: i ns es am)
  case Nil
  then show ?case by simp
next
  case (Cons l ls)
  define es' where
    "es' = (case to of None \<Rightarrow> es | Some a \<Rightarrow> es @ [page_log_edge a (log_address l) i])"
  show ?case
  proof (cases "am (log_address l) = None")
    case True
    have d: "dom (am(log_address l \<mapsto> True)) =
             set (map node_id (ns @ [page_contract_node (log_address l) i]))"
      using Cons.prems by simp
    have "set (map node_id (fst (page_logs to (i + 1) ls
             (ns @ [page_contract_node (log_address l) i], es', am(log_address l \<mapsto> True))))) =
          set (map node_id (ns @ [page_contract_node (log_address l) i])) \<union> log_address ` set ls"
      by (rule Cons.IH [OF d])
    then show ?thesis
      unfolding page_logs_Cons_new [of am l, OF True] es'_def [symmetric]
      by (auto simp del: fun_upd_apply)
  next
    case False
    then have "log_address l \<in> dom am"
      by (simp add: domIff)
    then have old: "log_address l \<in> set (map node_id ns)"
      using Cons.prems by simp
    have "set (map node_id (fst (page_logs to (i + 1) ls (ns, es', am)))) =
          set (map node_id ns) \<union> log_address ` set ls"
      by (rule Cons.IH [OF Cons.prems])
    then show ?thesis
      unfolding page_logs_Cons_old [of am l, OF False] es'_def [symmetric]
      using old by auto
  qed
qed

lemma fst_page_synthesize:
  "fst (page_synthesize r t) =
     fst (page_logs (truthy (receipt_to r)) 0 (receipt_logs r)
       (case truthy (receipt_to r) of
          None \<Rightarrow> ([page_sender_node r], [], Map.empty(receipt_from r \<mapsto> True))
        | Some to \<Rightarrow> ([page_sender_node r, page_receiver_node to], [page_sender_edge r t to],
                      Map.empty(receipt_from r \<mapsto> True, to \<mapsto> True))))"
  by (simp add: page_synthesize_def Let_def split_beta del: fun_upd_apply)

lemma snd_page_synthesize:
  "snd (page_synthesize r t) =
     fst (snd (page_logs (truthy (receipt_to r)) 0 (receipt_logs r)
       (case truthy (receipt_to r) of
          None \<Rightarrow> ([page_sender_node r], [], Map.empty(receipt_from r \<mapsto> True))
        | Some to \<Rightarrow> ([page_sender_node r, page_receiver_node to], [page_sender_edge r t to],
                      Map.empty(receipt_from r \<mapsto> True, to \<mapsto> True)))))"
  by (simp add: page_synthesize_def Let_def split_beta del: fun_upd_apply)

lemma page_edges_None:
  "truthy (receipt_to r) = None \<Longrightarrow> snd (page_synthesize r t) = []"
  by (simp add: snd_page_synthesize page_logs_edges del: fun_upd_apply)

lemma page_edges_Some:
  "truthy (receipt_to r) = Some to \<Longrightarrow>
   snd (page_synthesize r t) =
     page_sender_edge r t to #
     map (\<lambda>(k, l). page_log_edge to (log_address l) k) (List.enumerate 0 (receipt_logs r))"
  by (simp add: snd_page_synthesize page_logs_edges del: fun_upd_apply)

lemma node_id_page_sender_node [simp]: "node_id (page_sender_node r) = receipt_from r"
  by (simp add: page_sender_node_def)

lemma node_id_page_receiver_node [simp]: "node_id (page_receiver_node to) = to"
  by (simp add: page_receiver_node_def)

lemma page_ids_None:
  assumes "truthy (receipt_to r) = None"
  shows "set (map node_id (fst (page_synthesize r t))) =
     insert (receipt_from r) (log_address ` set (receipt_logs r))"
proof -
  have "set (map node_id (fst (page_logs None 0 (receipt_logs r)
          ([page_sender_node r], [], Map.empty(receipt_from r \<mapsto> True))))) =
        set (map node_id [page_sender_node r]) \<union> log_address ` set (receipt_logs r)"
    by (rule page_logs_ids_set) simp
  then show ?thesis
    using assms by (simp add: fst_page_synthesize del: fun_upd_apply)
qed

lemma page_ids_Some:
  assumes "truthy (receipt_to r) = Some to"
  shows "set (map node_id (fst (page_synthesize r t))) =
     insert (receipt_from r) (insert to (log_address ` set (receipt_logs r)))"
proof -
  have "set (map node_id (fst (page_logs (Some to) 0 (receipt_logs r)
          ([page_sender_node r, page_receiver_node to], [page_sender_edge r t to],
           Map.empty(receipt_from r \<mapsto> True, to \<mapsto> True))))) =
        set (map node_id [page_sender_node r, page_receiver_node to]) \<union>
        log_address ` set (receipt_logs r)"
    by (rule page_logs_ids_set) auto
  then show ?thesis
    using assms by (simp add: fst_page_synthesize del: fun_upd_apply)
qed

lemma eq_char_of_iff: "c = char_of n \<longleftrightarrow> take_bit 8 n = (of_char c :: nat)"
  using char_of_eq_iff [of n c] by auto

lemmas char_eval = char_of_eq_iff eq_char_of_iff

lemma edges_None: "truthy (receipt_to r) = None \<Longrightarrow> snd (synthesize r t) = []"
  by (simp add: synthesize_def step3_edges_def)

section \<open>Facts about the handlers\<close>

lemma hex_class_iff: "hex_class c \<longleftrightarrow> c \<in> set ''0123456789abcdefABCDEF''"
proof
  assume "c \<in> set ''0123456789abcdefABCDEF''"
  then show "hex_class c"
    by (auto simp: hex_class_def)
next
  assume h: "hex_class c"
  define n where "n = (of_char c :: nat)"
  have c: "c = char_of n"
    by (simp add: n_def)
  from h have "n \<in> {97, 98, 99, 100, 101, 102, 65, 66, 67, 68, 69, 70,
                    48, 49, 50, 51, 52, 53, 54, 55, 56, 57}"
    unfolding hex_class_def Let_def n_def [symmetric] by (simp; arith)
  then show "c \<in> set ''0123456789abcdefABCDEF''"
    unfolding c by (auto simp: char_eval)
qed

lemma hash_pattern_test_iff: "hash_pattern_test s \<longleftrightarrow> hash_format s"
proof (cases s)
  case Nil
  then show ?thesis by (simp add: hash_pattern_test_def hash_format_def)
next
  case (Cons c0 s')
  show ?thesis
  proof (cases s')
    case Nil
    with Cons show ?thesis by (simp add: hash_pattern_test_def hash_format_def)
  next
    case (Cons c1 rest)
    have "list_all hex_class rest \<longleftrightarrow> set rest \<subseteq> set ''0123456789abcdefABCDEF''"
      unfolding list_all_iff using hex_class_iff by blast
    with Cons \<open>s = c0 # s'\<close> show ?thesis
      by (auto simp: hash_pattern_test_def hash_format_def)
  qed
qed

lemma hash_format_nonempty: "hash_format s \<Longrightarrow> s \<noteq> []"
  by (auto simp: hash_format_def)

lemma handleAnalyse_accept:
  "hash_format (inputHash s) \<Longrightarrow>
   handleAnalyse s = s\<lparr> error := None, targetHash := Some (inputHash s) \<rparr>"
  by (simp add: handleAnalyse_def hash_pattern_test_iff hash_format_nonempty)

lemma handleAnalyse_reject:
  "\<not> hash_format (inputHash s) \<Longrightarrow>
   handleAnalyse s =
     s\<lparr> error := Some Msg_bad_format, targetHash := None, txInfo := None,
        nodes := [], edges := [] \<rparr>"
  by (simp add: handleAnalyse_def hash_pattern_test_iff)

lemma fetch_error_cleared:
  "error (fst (fetchAndProcessTransaction synth env h s)) \<noteq> None \<Longrightarrow>
   txInfo (fst (fetchAndProcessTransaction synth env h s)) = None \<and>
   nodes (fst (fetchAndProcessTransaction synth env h s)) = [] \<and>
   edges (fst (fetchAndProcessTransaction synth env h s)) = []"
  by (auto simp: fetchAndProcessTransaction_def Let_def
      split: if_splits settled.splits option.splits prod.splits)

lemma handleAnalyse_error_cleared:
  "error (handleAnalyse s) \<noteq> None \<Longrightarrow>
   txInfo (handleAnalyse s) = None \<and> nodes (handleAnalyse s) = [] \<and> edges (handleAnalyse s) = []"
  by (auto simp: handleAnalyse_def Let_def split: if_splits)

lemma analyse_error_cleared:
  "error (fst (analyse synth env s)) \<noteq> None \<Longrightarrow>
   txInfo (fst (analyse synth env s)) = None \<and>
   nodes (fst (analyse synth env s)) = [] \<and>
   edges (fst (analyse synth env s)) = []"
  unfolding analyse_def useEffect_targetHash_def
  using fetch_error_cleared handleAnalyse_error_cleared
  by (auto split: if_splits option.splits)

lemma no_result_rendering:
  "no_result s \<Longrightarrow> render_summary s = None \<and> FlowChart (nodes s) (edges s) = Placeholder"
  by (simp add: no_result_def render_summary_def FlowChart_def)

lemma good_hash_format: "hash_format good_hash"
  by (simp add: good_hash_def hash_format_def)

lemma analyse_good_hash:
  "analyse synth env (stale_state\<lparr> inputHash := good_hash \<rparr>) =
   fetchAndProcessTransaction synth env good_hash
     (stale_state\<lparr> inputHash := good_hash, error := None, targetHash := Some good_hash \<rparr>)"
proof -
  have "good_hash \<noteq> ''0x'' @ replicate 64 (CHR ''B'')"
    by (simp add: good_hash_def)
  then show ?thesis
    using good_hash_format
    by (simp add: analyse_def handleAnalyse_accept useEffect_targetHash_def truthy_def
        stale_state_def good_hash_def)
qed

lemma step2_nodes_nonempty: "step2_nodes r \<noteq> []"
proof (cases "truthy (receipt_to r)")
  case None
  from step2_nodes_ids_None [OF None] show ?thesis by auto
next
  case (Some to)
  from step2_nodes_ids_Some [OF Some] show ?thesis by auto
qed

lemma fetch_success:
  assumes "truthy (ALCHEMY_URL env) \<noteq> None"
    and "getTransaction env h = Fulfilled (Some t)"
    and "getTransactionReceipt env h = Fulfilled (Some r)"
  shows "fst (fetchAndProcessTransaction synth env h s) =
           s\<lparr> isLoading := False, error := None, txInfo := Some (make_txInfo r t),
              nodes := fst (synth r t), edges := snd (synth r t) \<rparr>"
  using assms
  by (cases "truthy (ALCHEMY_URL env)")
    (simp_all add: fetchAndProcessTransaction_def Let_def Promise_all_def)

lemma render_summary_to:
  "truthy (receipt_to r) = None \<Longrightarrow>
   map_option shown_to
     (render_summary (s\<lparr> isLoading := False, error := None, txInfo := Some (make_txInfo r t),
                        nodes := ns, edges := es \<rparr>)) = Some ''N/A (Contract Creation)''"
  by (simp add: render_summary_def make_txInfo_def)

section \<open>Facts about the synthesized nodes and edges\<close>

lemma page_ids_distinct:
  assumes "\<And>to. truthy (receipt_to r) = Some to \<Longrightarrow> to \<noteq> receipt_from r"
  shows "distinct (map node_id (fst (page_synthesize r t)))"
proof (cases "truthy (receipt_to r)")
  case None
  have "set (map node_id (fst (page_logs None 0 (receipt_logs r)
          ([page_sender_node r], [], Map.empty(receipt_from r \<mapsto> True))))) =
        set (map node_id [page_sender_node r]) \<union> log_address ` set (receipt_logs r) \<and>
        distinct (map node_id (fst (page_logs None 0 (receipt_logs r)
          ([page_sender_node r], [], Map.empty(receipt_from r \<mapsto> True)))))"
    by (rule page_logs_ids) simp_all
  then show ?thesis
    using None by (simp add: fst_page_synthesize del: fun_upd_apply)
next
  case (Some to)
  have ne: "to \<noteq> receipt_from r"
    using assms Some by simp
  have "set (map node_id (fst (page_logs (Some to) 0 (receipt_logs r)
          ([page_sender_node r, page_receiver_node to], [page_sender_edge r t to],
           Map.empty(receipt_from r \<mapsto> True, to \<mapsto> True))))) =
        set (map node_id [page_sender_node r, page_receiver_node to]) \<union>
        log_address ` set (receipt_logs r) \<and>
        distinct (map node_id (fst (page_logs (Some to) 0 (receipt_logs r)
          ([page_sender_node r, page_receiver_node to], [page_sender_edge r t to],
           Map.empty(receipt_from r \<mapsto> True, to \<mapsto> True)))))"
    using ne by (intro page_logs_ids) auto
  then show ?thesis
    using Some by (simp add: fst_page_synthesize del: fun_upd_apply)
qed

lemma page_ids_addresses: "set (map node_id (fst (page_synthesize r t))) = addresses r"
proof (cases "truthy (receipt_to r)")
  case None
  then show ?thesis
    using page_ids_None [OF None, of t] by (simp add: addresses_def)
next
  case (Some to)
  then show ?thesis
    using page_ids_Some [OF Some, of t] by (simp add: addresses_def)
qed

lemma ids_addresses:
  "set (map node_id (fst (synthesize r t))) = toLowerCase ` addresses r"
proof (cases "truthy (receipt_to r)")
  case None
  show ?thesis
    using arg_cong [OF step2_nodes_ids_None [OF None], of set]
    by (auto simp: synthesize_def addresses_def None set_uniqueLogAddresses)
next
  case (Some to)
  show ?thesis
    using arg_cong [OF step2_nodes_ids_Some [OF Some], of set]
    by (auto simp: synthesize_def addresses_def Some set_uniqueLogAddresses)
qed

lemma ids_distinct:
  assumes "\<And>to. truthy (receipt_to r) = Some to \<Longrightarrow>
             toLowerCase to \<noteq> toLowerCase (receipt_from r)"
  shows "distinct (map node_id (fst (synthesize r t)))"
proof (cases "truthy (receipt_to r)")
  case None
  show ?thesis
    by (simp add: synthesize_def step2_nodes_ids_None [OF None] distinct_uniqueLogAddresses)
next
  case (Some to)
  have "toLowerCase to \<noteq> toLowerCase (receipt_from r)"
    using assms Some by simp
  then show ?thesis
    by (auto simp: synthesize_def step2_nodes_ids_Some [OF Some] distinct_uniqueLogAddresses)
qed

lemma lower_c0de: "toLowerCase ''0xC0de'' = ''0xc0de''" "toLowerCase ''0xc0DE'' = ''0xc0de''"
  "toLowerCase ''0xAa01'' = ''0xaa01''" "toLowerCase ''0xBb02'' = ''0xbb02''"
  "toLowerCase ''0xd00d'' = ''0xd00d''"
  by (simp_all add: toLowerCase_def toLowerCase_char_def char_eval)

lemma lower_short: "toLowerCase ''0xa1'' = ''0xa1''" "toLowerCase ''0xf4'' = ''0xf4''"
  "toLowerCase ''0xb2'' = ''0xb2''" "toLowerCase ''0xc3'' = ''0xc3''"
  by (simp_all add: toLowerCase_def toLowerCase_char_def char_eval)

lemma edges_Some:
  "truthy (receipt_to r) = Some to \<Longrightarrow>
   snd (synthesize r t) =
     sender_edge r t to #
     map (contract_edge to) (filter (\<lambda>a. a \<noteq> toLowerCase to) (uniqueLogAddresses r))"
  by (simp add: synthesize_def step3_edges_def)

lemma contract_edge_fields [simp]:
  "edge_source (contract_edge to a) = toLowerCase to"
  "edge_target (contract_edge to a) = a"
  "edge_label (contract_edge to a) = None"
  by (simp_all add: contract_edge_def)

lemma sender_edge_fields [simp]:
  "edge_source (sender_edge r t to) = toLowerCase (receipt_from r)"
  "edge_target (sender_edge r t to) = toLowerCase to"
  "edge_label (sender_edge r t to) = Some (formatEther (transaction_value t) @ '' ETH'')"
  by (simp_all add: sender_edge_def)

lemma page_sender_edge_fields [simp]:
  "edge_source (page_sender_edge r t to) = receipt_from r"
  "edge_target (page_sender_edge r t to) = to"
  "edge_label (page_sender_edge r t to) = Some (formatEther (transaction_value t) @ '' ETH'')"
  by (simp_all add: page_sender_edge_def)

lemma page_log_edge_fields [simp]:
  "edge_source (page_log_edge to a i) = to"
  "edge_target (page_log_edge to a i) = a"
  "edge_label (page_log_edge to a i) = Some (''Event #'' @ toString (i + 1))"
  by (simp_all add: page_log_edge_def)

lemma map_snd_enumerate_comp:
  "map (\<lambda>(k, l). f l) (List.enumerate i ls) = map f ls"
  by (induction ls arbitrary: i) simp_all

lemma toString_2: "toString 2 = ''2''"
  by (subst toString.simps) (simp add: char_eval)

lemma one_per_id:
  "distinct (map f xs) \<Longrightarrow> a \<in> f ` set xs \<Longrightarrow> length (filter (\<lambda>x. f x = a) xs) = 1"
proof (induction xs)
  case Nil
  then show ?case by simp
next
  case (Cons x xs)
  show ?case
  proof (cases "f x = a")
    case True
    then have "a \<notin> f ` set xs"
      using Cons.prems(1) by auto
    then have "filter (\<lambda>x. f x = a) xs = []"
      by (auto simp: filter_empty_conv)
    then show ?thesis
      using True by simp
  next
    case False
    then show ?thesis
      using Cons by auto
  qed
qed

lemma page_logs_extra:
  "\<exists>extra. fst (page_logs to i ls (ns, es, am)) = ns @ extra \<and>
      distinct (map node_id extra) \<and>
      set (map node_id extra) = log_address ` set ls - dom am"
proof (induction ls arbitrary: i ns es am)
  case Nil
  then show ?case by simp
next
  case (Cons l ls)
  define es' where
    "es' = (case to of None \<Rightarrow> es | Some a \<Rightarrow> es @ [page_log_edge a (log_address l) i])"
  show ?case
  proof (cases "am (log_address l) = None")
    case True
    then have fresh: "log_address l \<notin> dom am"
      by (simp add: domIff)
    obtain extra where
      e: "fst (page_logs to (i + 1) ls
             (ns @ [page_contract_node (log_address l) i], es', am(log_address l \<mapsto> True))) =
          (ns @ [page_contract_node (log_address l) i]) @ extra"
      and d: "distinct (map node_id extra)"
      and s: "set (map node_id extra) = log_address ` set ls - dom (am(log_address l \<mapsto> True))"
      using Cons.IH by blast
    have "fst (page_logs to i (l # ls) (ns, es, am)) =
          ns @ (page_contract_node (log_address l) i # extra)"
      unfolding page_logs_Cons_new [of am l, OF True] es'_def [symmetric] e by simp
    moreover have "distinct (map node_id (page_contract_node (log_address l) i # extra))"
      using d s by auto
    moreover have "set (map node_id (page_contract_node (log_address l) i # extra)) =
          log_address ` set (l # ls) - dom am"
      using s fresh by auto
    ultimately show ?thesis by blast
  next
    case False
    then have old: "log_address l \<in> dom am"
      by (simp add: domIff)
    obtain extra where
      e: "fst (page_logs to (i + 1) ls (ns, es', am)) = ns @ extra"
      and d: "distinct (map node_id extra)"
      and s: "set (map node_id extra) = log_address ` set ls - dom am"
      using Cons.IH by blast
    have "fst (page_logs to i (l # ls) (ns, es, am)) = ns @ extra"
      unfolding page_logs_Cons_old [of am l, OF False] es'_def [symmetric] e by simp
    moreover have "set (map node_id extra) = log_address ` set (l # ls) - dom am"
      using s old by auto
    ultimately show ?thesis using d by blast
  qed
qed

lemma page_nodes_shape:
  "fst (page_synthesize r t) \<noteq> [] \<and>
   node_id (hd (fst (page_synthesize r t))) = receipt_from r \<and>
   distinct (map node_id (tl (fst (page_synthesize r t))))"
proof (cases "truthy (receipt_to r)")
  case None
  obtain extra where
    e: "fst (page_logs None 0 (receipt_logs r)
          ([page_sender_node r], [], Map.empty(receipt_from r \<mapsto> True))) =
        [page_sender_node r] @ extra"
    and d: "distinct (map node_id extra)"
    using page_logs_extra by blast
  show ?thesis
    using d by (simp add: fst_page_synthesize None e del: fun_upd_apply)
next
  case (Some to)
  obtain extra where
    e: "fst (page_logs (Some to) 0 (receipt_logs r)
          ([page_sender_node r, page_receiver_node to], [page_sender_edge r t to],
           Map.empty(receipt_from r \<mapsto> True, to \<mapsto> True))) =
        [page_sender_node r, page_receiver_node to] @ extra"
    and d: "distinct (map node_id extra)"
    and s: "set (map node_id extra) =
        log_address ` set (receipt_logs r) - dom (Map.empty(receipt_from r \<mapsto> True, to \<mapsto> True))"
    using page_logs_extra by blast
  have "to \<notin> set (map node_id extra)"
    unfolding s by simp
  then show ?thesis
    using d by (simp add: fst_page_synthesize Some e del: fun_upd_apply)
qed

lemma nodes_shape:
  "fst (synthesize r t) \<noteq> [] \<and>
   node_id (hd (fst (synthesize r t))) = toLowerCase (receipt_from r) \<and>
   distinct (map node_id (tl (fst (synthesize r t))))"
proof -
  obtain rest where
    ids: "map node_id (step2_nodes r) = toLowerCase (receipt_from r) # rest"
    and d: "distinct rest"
  proof (cases "truthy (receipt_to r)")
    case None
    show ?thesis
      by (rule that [OF step2_nodes_ids_None [OF None]])
        (simp add: distinct_uniqueLogAddresses)
  next
    case (Some to)
    show ?thesis
      by (rule that [OF step2_nodes_ids_Some [OF Some]])
        (simp add: distinct_uniqueLogAddresses)
  qed
  from ids obtain n ns where N: "step2_nodes r = n # ns"
    by (cases "step2_nodes r") auto
  with ids d show ?thesis
    by (simp add: synthesize_def)
qed

lemma one_besides_head:
  assumes "xs \<noteq> []" and "distinct (map f (tl xs))"
    and "a \<in> f ` set xs" and "a \<noteq> f (hd xs)"
  shows "length (filter (\<lambda>x. f x = a) xs) = 1"
proof -
  obtain y ys where xs: "xs = y # ys"
    using assms(1) by (cases xs) auto
  have "a \<in> f ` set ys"
    using assms(3,4) xs by auto
  then have "length (filter (\<lambda>x. f x = a) ys) = 1"
    using assms(2) xs by (intro one_per_id) simp_all
  then show ?thesis
    using assms(4) xs by auto
qed

section \<open>Facts about the conversion of wei\<close>

lemma digits_value_snoc:
  "digits_value (xs @ [c]) = 10 * digits_value xs + digit_value c"
  by (simp add: digits_value_def)

lemma digit_value_char_of: "d < 10 \<Longrightarrow> digit_value (char_of (48 + d)) = d"
  by (simp add: digit_value_def)

lemma digits_value_toString: "digits_value (toString n) = n"
proof (induction n rule: toString.induct)
  case (1 n)
  show ?case
  proof (cases "n < 10")
    case True
    then show ?thesis
      using digits_value_snoc [of "[]" "char_of (48 + n)"]
      by (simp add: toString.simps [of n] digit_value_char_of digits_value_def)
  next
    case False
    then show ?thesis
      using 1 by (simp add: toString.simps [of n] digits_value_snoc digit_value_char_of)
  qed
qed

lemma toString_digits:
  "c \<in> set (toString n) \<Longrightarrow> 48 \<le> (of_char c :: nat) \<and> (of_char c :: nat) \<le> 57"
proof (induction n rule: toString.induct)
  case (1 n)
  show ?case
  proof (cases "n < 10")
    case True
    with 1 show ?thesis
      by (auto simp: toString.simps [of n])
  next
    case False
    have "n mod 10 < 10" by simp
    then have "48 + n mod 10 < 256" by linarith
    with False 1 show ?thesis
      by (auto simp: toString.simps [of n])
  qed
qed

lemma no_point_in_toString: "CHR ''.'' \<notin> set (toString n)"
  using toString_digits [of "CHR ''.''" n] by auto

lemma toString_nonempty: "toString n \<noteq> []"
  by (simp add: toString.simps [of n])

lemma length_toString: "0 < k \<Longrightarrow> n < 10 ^ k \<Longrightarrow> length (toString n) \<le> k"
proof (induction n arbitrary: k rule: toString.induct)
  case (1 n)
  show ?case
  proof (cases "n < 10")
    case True
    with 1 show ?thesis
      by (simp add: toString.simps [of n])
  next
    case False
    obtain j where k: "k = Suc j"
      using "1.prems"(1) by (cases k) auto
    have "0 < j"
      using False "1.prems"(2) k by (cases j) auto
    moreover have "n div 10 < 10 ^ j"
      using "1.prems"(2) k by (simp add: less_mult_imp_div_less mult.commute)
    ultimately have "length (toString (n div 10)) \<le> j"
      using 1 False by simp
    then show ?thesis
      using False k by (simp add: toString.simps [of n])
  qed
qed

lemma digits_value_zeros_prefix:
  "digits_value (replicate k (CHR ''0'') @ s) = digits_value s"
  by (induction k) (simp_all add: digits_value_def digit_value_def)

lemma digits_value_zeros_suffix:
  "digits_value (xs @ replicate j (CHR ''0'')) = digits_value xs * 10 ^ j"
proof (induction j)
  case 0
  then show ?case by simp
next
  case (Suc j)
  have "xs @ replicate (Suc j) (CHR ''0'') = (xs @ replicate j (CHR ''0'')) @ [CHR ''0'']"
    by (simp add: replicate_append_same)
  then have "digits_value (xs @ replicate (Suc j) (CHR ''0'')) =
             10 * digits_value (xs @ replicate j (CHR ''0'')) + digit_value (CHR ''0'')"
    by (simp only: digits_value_snoc)
  also have "\<dots> = digits_value xs * 10 ^ Suc j"
    by (simp add: Suc digit_value_def)
  finally show ?case .
qed

lemma strip_trailing_zeros_decomp:
  "s = strip_trailing_zeros s @
       replicate (length s - length (strip_trailing_zeros s)) (CHR ''0'')"
proof -
  define P where "P = (\<lambda>c. c = CHR ''0'')"
  have tw: "takeWhile P (rev s) = replicate (length (takeWhile P (rev s))) (CHR ''0'')"
    by (rule replicate_eqI) (auto simp: P_def dest: set_takeWhileD)
  have "rev s = takeWhile P (rev s) @ dropWhile P (rev s)"
    by simp
  then have "s = rev (dropWhile P (rev s)) @ rev (takeWhile P (rev s))"
    by (metis rev_append rev_rev_ident)
  also have "rev (takeWhile P (rev s)) = replicate (length (takeWhile P (rev s))) (CHR ''0'')"
    using tw by (metis rev_replicate)
  finally have s: "s = strip_trailing_zeros s @ replicate (length (takeWhile P (rev s))) (CHR ''0'')"
    by (simp add: strip_trailing_zeros_def P_def)
  have "length s = length (strip_trailing_zeros s) + length (takeWhile P (rev s))"
    using arg_cong [OF s, of length] by simp
  then have "length (takeWhile P (rev s)) = length s - length (strip_trailing_zeros s)"
    by simp
  with s show ?thesis by simp
qed

lemma decimal_value_integer:
  "CHR ''.'' \<notin> set i \<Longrightarrow> decimal_value i = of_nat (digits_value i)"
proof -
  assume a: "CHR ''.'' \<notin> set i"
  then have tw: "takeWhile (\<lambda>c. c \<noteq> CHR ''.'') i = i"
    by (intro takeWhile_eq_all_conv [THEN iffD2]) auto
  have dw: "dropWhile (\<lambda>c. c \<noteq> CHR ''.'') i = []"
    using a by (intro dropWhile_eq_Nil_conv [THEN iffD2]) auto
  show ?thesis
    unfolding decimal_value_def Let_def tw dw
    by (simp add: digits_value_def)
qed

lemma decimal_value_point:
  assumes "CHR ''.'' \<notin> set i"
  shows "decimal_value (i @ CHR ''.'' # f) =
           of_nat (digits_value i) + of_nat (digits_value f) / 10 ^ length f"
proof -
  have ne: "x \<noteq> CHR ''.''" if "x \<in> set i" for x
    using assms that by auto
  have tw: "takeWhile (\<lambda>c. c \<noteq> CHR ''.'') (i @ CHR ''.'' # f) = i"
    using ne by simp
  have dw: "dropWhile (\<lambda>c. c \<noteq> CHR ''.'') (i @ CHR ''.'' # f) = CHR ''.'' # f"
    using ne by simp
  show ?thesis
    unfolding decimal_value_def Let_def tw dw by simp
qed

lemma decimal_value_formatUnits:
  assumes "0 < d"
  shows "decimal_value (formatUnits v d) = of_nat v / 10 ^ d"
proof -
  define q where "q = v div 10 ^ d"
  define m where "m = v mod 10 ^ d"
  define F where "F = padStart d (CHR ''0'') (toString m)"
  define G where "G = strip_trailing_zeros F"
  define j where "j = length F - length G"
  have "m < 10 ^ d"
    by (simp add: m_def)
  then have "length (toString m) \<le> d"
    using assms by (rule length_toString [rotated])
  then have lenF: "length F = d"
    by (simp add: F_def padStart_def)
  have valF: "digits_value F = m"
    by (simp add: F_def padStart_def digits_value_zeros_prefix digits_value_toString)
  have F: "F = G @ replicate j (CHR ''0'')"
    unfolding G_def j_def by (rule strip_trailing_zeros_decomp)
  have lenG: "length G + j = d"
    using arg_cong [OF F, of length] lenF by simp
  have m: "m = digits_value G * 10 ^ j"
    using valF F digits_value_zeros_suffix [of G j] by simp
  have v: "v = q * 10 ^ d + m"
    unfolding q_def m_def by (rule div_mult_mod_eq [symmetric])
  have split: "(of_nat v :: rat) / 10 ^ d = of_nat q + of_nat m / 10 ^ d"
    by (subst v) (simp add: field_simps)
  have frac: "(of_nat m :: rat) / 10 ^ d = of_nat (digits_value G) / 10 ^ length G"
  proof -
    have "(10::rat) ^ d = 10 ^ length G * 10 ^ j"
      using lenG by (simp add: power_add [symmetric])
    then show ?thesis
      by (simp add: m)
  qed
  have res: "formatUnits v d = toString q @ (if G = [] then [] else CHR ''.'' # G)"
    by (simp add: formatUnits_def Let_def q_def G_def F_def m_def)
  show ?thesis
  proof (cases "G = []")
    case True
    then have "m = 0"
      using m by (simp add: digits_value_def)
    then show ?thesis
      using True res split
      by (simp add: decimal_value_integer no_point_in_toString digits_value_toString)
  next
    case False
    then show ?thesis
      using res split frac
      by (simp add: decimal_value_point no_point_in_toString digits_value_toString)
  qed
qed

lemma strip_trailing_zeros_zeros: "strip_trailing_zeros (replicate k (CHR ''0'')) = []"
  by (simp add: strip_trailing_zeros_def)

lemma toString_0: "toString 0 = ''0''"
  by (simp add: toString.simps [of 0] char_eval)

lemma toString_1: "toString (Suc 0) = ''1''"
  by (subst toString.simps) (simp add: char_eval)

lemma formatEther_one: "formatEther 1000000000000000000 = ''1''"
proof -
  have "padStart 18 (CHR ''0'') ''0'' = replicate 18 (CHR ''0'')"
    by (simp add: padStart_def replicate_append_same [symmetric] del: replicate_Suc)
       (simp add: numeral_eq_Suc)
  then show ?thesis
    by (simp add: formatEther_def formatUnits_def toString_0 toString_1
        strip_trailing_zeros_zeros)
qed

section \<open>Node identity\<close>

text \<open>
  Claim C1, as amended. For every input, the node ids of the variant with emission counts
  are exactly the lowercased addresses of the receipt (sender, receiver, log emitters), and
  every id other than the sender's belongs to exactly one node; so log entries whose
  addresses differ only in letter case share one node. For every input, the node ids of the
  page variant are exactly the addresses as they were fetched, and every id other than the
  sender's belongs to exactly one node; so such log entries get a node each. When the
  receiver is absent or differs from the sender (up to letter case in the variant with
  emission counts, as fetched in the page variant), the sender's id belongs to exactly one
  node too: no id occurs twice in the node list.
\<close>

theorem node_identity:
  "set (map node_id (fst (synthesize r t))) = toLowerCase ` addresses r \<and>
   (\<forall>a \<in> toLowerCase ` addresses r. a \<noteq> toLowerCase (receipt_from r) \<longrightarrow>
      length (filter (\<lambda>n. node_id n = a) (fst (synthesize r t))) = 1) \<and>
   ((\<forall>to. truthy (receipt_to r) = Some to \<longrightarrow> toLowerCase to \<noteq> toLowerCase (receipt_from r)) \<longrightarrow>
      distinct (map node_id (fst (synthesize r t)))) \<and>
   set (map node_id (fst (page_synthesize r t))) = addresses r \<and>
   (\<forall>a \<in> addresses r. a \<noteq> receipt_from r \<longrightarrow>
      length (filter (\<lambda>n. node_id n = a) (fst (page_synthesize r t))) = 1) \<and>
   ((\<forall>to. truthy (receipt_to r) = Some to \<longrightarrow> to \<noteq> receipt_from r) \<longrightarrow>
      distinct (map node_id (fst (page_synthesize r t))))"
proof (intro conjI ballI impI)
  show "set (map node_id (fst (synthesize r t))) = toLowerCase ` addresses r"
    by (rule ids_addresses)
  show "set (map node_id (fst (page_synthesize r t))) = addresses r"
    by (rule page_ids_addresses)
next
  fix a
  assume "a \<in> toLowerCase ` addresses r" and "a \<noteq> toLowerCase (receipt_from r)"
  then show "length (filter (\<lambda>n. node_id n = a) (fst (synthesize r t))) = 1"
    using nodes_shape [of r t] ids_addresses [of r t]
    by (intro one_besides_head) auto
next
  fix a
  assume "a \<in> addresses r" and "a \<noteq> receipt_from r"
  then show "length (filter (\<lambda>n. node_id n = a) (fst (page_synthesize r t))) = 1"
    using page_nodes_shape [of r t] page_ids_addresses [of r t]
    by (intro one_besides_head) auto
next
  assume "\<forall>to. truthy (receipt_to r) = Some to \<longrightarrow> toLowerCase to \<noteq> toLowerCase (receipt_from r)"
  then show "distinct (map node_id (fst (synthesize r t)))"
    by (intro ids_distinct) simp
next
  assume "\<forall>to. truthy (receipt_to r) = Some to \<longrightarrow> to \<noteq> receipt_from r"
  then show "distinct (map node_id (fst (page_synthesize r t)))"
    by (intro page_ids_distinct) simp
qed

theorem node_identity_witness:
  "truthy (receipt_to call_receipt) = Some ''0xBb02'' \<and>
   toLowerCase ''0xBb02'' \<noteq> toLowerCase (receipt_from call_receipt) \<and>
   set (map node_id (fst (synthesize call_receipt one_ether))) =
     {''0xaa01'', ''0xbb02'', ''0xc0de'', ''0xd00d''} \<and>
   distinct (map node_id (fst (synthesize call_receipt one_ether))) \<and>
   set (map node_id (fst (page_synthesize call_receipt one_ether))) =
     {''0xAa01'', ''0xBb02'', ''0xC0de'', ''0xc0DE'', ''0xd00d''} \<and>
   distinct (map node_id (fst (page_synthesize call_receipt one_ether))) \<and>
   truthy (receipt_to self_log_receipt) = Some (receipt_from self_log_receipt) \<and>
   toLowerCase ''0xC0de'' = ''0xc0de'' \<and> toLowerCase ''0xc0DE'' = ''0xc0de'' \<and>
   ''0xc0de'' \<noteq> toLowerCase (receipt_from self_log_receipt) \<and>
   length (filter (\<lambda>n. node_id n = ''0xc0de'') (fst (synthesize self_log_receipt one_ether))) = 1 \<and>
   length (filter (\<lambda>n. node_id n = ''0xC0de'') (fst (page_synthesize self_log_receipt one_ether))) = 1 \<and>
   length (filter (\<lambda>n. node_id n = ''0xc0DE'') (fst (page_synthesize self_log_receipt one_ether))) = 1"
proof -
  have to: "truthy (receipt_to call_receipt) = Some ''0xBb02''"
    by (simp add: call_receipt_def truthy_def)
  have ne: "toLowerCase ''0xBb02'' \<noteq> toLowerCase (receipt_from call_receipt)"
    by (simp add: call_receipt_def lower_c0de)
  have h: "\<forall>to. truthy (receipt_to call_receipt) = Some to \<longrightarrow>
      toLowerCase to \<noteq> toLowerCase (receipt_from call_receipt)"
    using ne by (simp add: to)
  have ph: "\<forall>to. truthy (receipt_to call_receipt) = Some to \<longrightarrow> to \<noteq> receipt_from call_receipt"
    by (simp add: to) (simp add: call_receipt_def)
  have a: "addresses call_receipt = {''0xAa01'', ''0xBb02'', ''0xC0de'', ''0xc0DE'', ''0xd00d''}"
    by (auto simp: addresses_def to) (auto simp: call_receipt_def)
  note n = node_identity [of call_receipt one_ether]
  note n1 = n [THEN conjunct1]
  note n3 = n [THEN conjunct2, THEN conjunct2, THEN conjunct1]
  note n4 = n [THEN conjunct2, THEN conjunct2, THEN conjunct2, THEN conjunct1]
  note n6 = n [THEN conjunct2, THEN conjunct2, THEN conjunct2, THEN conjunct2, THEN conjunct2]
  have c1: "set (map node_id (fst (synthesize call_receipt one_ether))) =
     {''0xaa01'', ''0xbb02'', ''0xc0de'', ''0xd00d''}"
    unfolding n1 a by (simp add: lower_c0de)
  have c2: "distinct (map node_id (fst (synthesize call_receipt one_ether)))"
    by (rule n3 [THEN mp, OF h])
  have c3: "set (map node_id (fst (page_synthesize call_receipt one_ether))) =
     {''0xAa01'', ''0xBb02'', ''0xC0de'', ''0xc0DE'', ''0xd00d''}"
    unfolding n4 a by (rule refl)
  have c4: "distinct (map node_id (fst (page_synthesize call_receipt one_ether)))"
    by (rule n6 [THEN mp, OF ph])
  have self: "truthy (receipt_to self_log_receipt) = Some (receipt_from self_log_receipt)"
    by (simp add: self_log_receipt_def truthy_def)
  have sa: "addresses self_log_receipt = {''0xAa01'', ''0xC0de'', ''0xc0DE''}"
    by (auto simp: addresses_def self) (auto simp: self_log_receipt_def)
  have f: "receipt_from self_log_receipt = ''0xAa01''"
    by (simp add: self_log_receipt_def)
  have sne: "''0xc0de'' \<noteq> toLowerCase (receipt_from self_log_receipt)"
    by (simp add: f lower_c0de)
  note m = node_identity [of self_log_receipt one_ether]
  note m2 = m [THEN conjunct2, THEN conjunct1]
  note m5 = m [THEN conjunct2, THEN conjunct2, THEN conjunct2, THEN conjunct2, THEN conjunct1]
  have "''0xc0de'' \<in> toLowerCase ` addresses self_log_receipt"
    unfolding sa by (simp add: lower_c0de)
  then have s1: "length (filter (\<lambda>n. node_id n = ''0xc0de'')
      (fst (synthesize self_log_receipt one_ether))) = 1"
    by (rule m2 [THEN bspec, THEN mp, OF _ sne])
  have "''0xC0de'' \<in> addresses self_log_receipt"
    unfolding sa by simp
  moreover have "''0xC0de'' \<noteq> receipt_from self_log_receipt"
    unfolding f by simp
  ultimately have s2: "length (filter (\<lambda>n. node_id n = ''0xC0de'')
      (fst (page_synthesize self_log_receipt one_ether))) = 1"
    by (rule m5 [THEN bspec, THEN mp])
  have "''0xc0DE'' \<in> addresses self_log_receipt"
    unfolding sa by simp
  moreover have "''0xc0DE'' \<noteq> receipt_from self_log_receipt"
    unfolding f by simp
  ultimately have s3: "length (filter (\<lambda>n. node_id n = ''0xc0DE'')
      (fst (page_synthesize self_log_receipt one_ether))) = 1"
    by (rule m5 [THEN bspec, THEN mp])
  show ?thesis
    by (intro conjI to ne c1 c2 c3 c4 self sne s1 s2 s3 lower_c0de)
qed

text \<open>
  The claim as it was stated fails at two inputs. The page variant keeps \<open>0xC0de\<close> and
  \<open>0xc0DE\<close> apart, although they differ only in letter case. And when an account sends to
  itself, the variant with emission counts pushes a sender node and a receiver node with
  the same id.
\<close>

theorem node_identity_counterexample:
  "toLowerCase ''0xC0de'' = toLowerCase ''0xc0DE'' \<and>
   map node_id (fst (page_synthesize creation_receipt one_ether)) =
     [''0xAa01'', ''0xC0de'', ''0xc0DE''] \<and>
   map node_id (fst (synthesize self_receipt one_ether)) = [''0xaa01'', ''0xaa01'']"
proof -
  have c: "truthy (receipt_to creation_receipt) = None"
    by (simp add: creation_receipt_def truthy_def)
  have p: "map node_id (fst (page_synthesize creation_receipt one_ether)) =
     [''0xAa01'', ''0xC0de'', ''0xc0DE'']"
    by (simp add: fst_page_synthesize c) (simp add: creation_receipt_def)
  have s: "truthy (receipt_to self_receipt) = Some ''0xAa01''"
    by (simp add: self_receipt_def truthy_def)
  have u: "uniqueLogAddresses self_receipt = []"
    by (simp add: uniqueLogAddresses_def self_receipt_def Set_values_def)
  have q: "map node_id (fst (synthesize self_receipt one_ether)) = [''0xaa01'', ''0xaa01'']"
    by (simp add: synthesize_def step2_nodes_ids_Some [OF s] u)
       (simp add: self_receipt_def lower_c0de)
  show ?thesis
    using p q by (simp add: lower_c0de)
qed

section \<open>The edge list\<close>

text \<open>
  Claim C2, as amended. Without a receiver both variants produce no edge. With a receiver,
  the first edge of both variants goes from the sender to the receiver and is labelled with
  the transferred value in ether. In the variant with emission counts the remaining edges
  all start at the receiver, and their targets are, without repetition, exactly the
  lowercased log-emitting addresses other than the receiver. In the page variant the
  remaining edges are one edge from the receiver per log occurrence, in the order of the
  logs, the logs of the receiver itself included.
\<close>

theorem edge_list:
  "(truthy (receipt_to r) = None \<longrightarrow>
      snd (synthesize r t) = [] \<and> snd (page_synthesize r t) = []) \<and>
   (truthy (receipt_to r) = Some to \<longrightarrow>
      snd (synthesize r t) \<noteq> [] \<and>
      edge_source (hd (snd (synthesize r t))) = toLowerCase (receipt_from r) \<and>
      edge_target (hd (snd (synthesize r t))) = toLowerCase to \<and>
      edge_label (hd (snd (synthesize r t))) = Some (formatEther (transaction_value t) @ '' ETH'') \<and>
      (\<forall>e \<in> set (tl (snd (synthesize r t))). edge_source e = toLowerCase to) \<and>
      distinct (map edge_target (tl (snd (synthesize r t)))) \<and>
      set (map edge_target (tl (snd (synthesize r t)))) =
        toLowerCase ` log_address ` set (receipt_logs r) - {toLowerCase to} \<and>
      snd (page_synthesize r t) \<noteq> [] \<and>
      edge_source (hd (snd (page_synthesize r t))) = receipt_from r \<and>
      edge_target (hd (snd (page_synthesize r t))) = to \<and>
      edge_label (hd (snd (page_synthesize r t))) =
        Some (formatEther (transaction_value t) @ '' ETH'') \<and>
      map edge_source (tl (snd (page_synthesize r t))) = map (\<lambda>l. to) (receipt_logs r) \<and>
      map edge_target (tl (snd (page_synthesize r t))) = map log_address (receipt_logs r))"
proof (intro conjI impI)
  assume none: "truthy (receipt_to r) = None"
  show "snd (synthesize r t) = []"
    by (rule edges_None [OF none])
  show "snd (page_synthesize r t) = []"
    by (rule page_edges_None [OF none])
next
  assume some: "truthy (receipt_to r) = Some to"
  show "distinct (map edge_target (tl (snd (synthesize r t))))"
    by (simp add: edges_Some [OF some] comp_def distinct_uniqueLogAddresses)
  show "set (map edge_target (tl (snd (synthesize r t)))) =
           toLowerCase ` log_address ` set (receipt_logs r) - {toLowerCase to}"
    by (auto simp: edges_Some [OF some] comp_def set_uniqueLogAddresses)
  show "map edge_source (tl (snd (page_synthesize r t))) = map (\<lambda>l. to) (receipt_logs r)"
    by (simp add: page_edges_Some [OF some] comp_def split_def map_snd_enumerate_comp
        [of "\<lambda>l. to", unfolded split_def])
  show "map edge_target (tl (snd (page_synthesize r t))) = map log_address (receipt_logs r)"
    by (simp add: page_edges_Some [OF some] comp_def split_def map_snd_enumerate_comp
        [of log_address, unfolded split_def])
qed (simp_all add: edges_Some page_edges_Some)

theorem edge_list_witness:
  "truthy (receipt_to creation_receipt) = None \<and>
   snd (synthesize creation_receipt one_ether) = [] \<and>
   truthy (receipt_to call_receipt) = Some ''0xBb02'' \<and>
   edge_label (hd (snd (synthesize call_receipt one_ether))) =
     Some (formatEther (transaction_value one_ether) @ '' ETH'') \<and>
   distinct (map edge_target (tl (snd (synthesize call_receipt one_ether)))) \<and>
   set (map edge_target (tl (snd (synthesize call_receipt one_ether)))) = {''0xc0de'', ''0xd00d''} \<and>
   map edge_target (tl (snd (page_synthesize call_receipt one_ether))) =
     [''0xC0de'', ''0xc0DE'', ''0xBb02'', ''0xd00d'']"
proof -
  have none: "truthy (receipt_to creation_receipt) = None"
    by (simp add: creation_receipt_def truthy_def)
  have some: "truthy (receipt_to call_receipt) = Some ''0xBb02''"
    by (simp add: call_receipt_def truthy_def)
  have l: "toLowerCase ` log_address ` set (receipt_logs call_receipt) - {toLowerCase ''0xBb02''} =
           {''0xc0de'', ''0xd00d''}"
    by (auto simp: call_receipt_def lower_c0de)
  have m: "map log_address (receipt_logs call_receipt) =
           [''0xC0de'', ''0xc0DE'', ''0xBb02'', ''0xd00d'']"
    by (simp add: call_receipt_def)
  show ?thesis
    using edge_list [of creation_receipt one_ether "''0xBb02''"]
      edge_list [of call_receipt one_ether "''0xBb02''"] none some
    unfolding l m by simp
qed

text \<open>
  The claim as it was stated fails in the page variant: two logs of the one contract
  \<open>0xc3\<close> give two edges from the receiver \<open>0xf4\<close> to it.
\<close>

theorem edge_list_counterexample:
  "map edge_source (snd (page_synthesize repeated_log_receipt one_ether)) =
     [''0xa1'', ''0xf4'', ''0xf4''] \<and>
   map edge_target (snd (page_synthesize repeated_log_receipt one_ether)) =
     [''0xf4'', ''0xc3'', ''0xc3'']"
proof -
  have some: "truthy (receipt_to repeated_log_receipt) = Some ''0xf4''"
    by (simp add: repeated_log_receipt_def truthy_def)
  show ?thesis
    by (simp add: page_edges_Some [OF some]) (simp add: repeated_log_receipt_def)
qed

section \<open>Logs of two contracts, one of them twice\<close>

text \<open>
  Claim C3. The claim names four addresses: the sender S, the receiver R and the contracts
  A and B; A and B are different contracts, and neither of them is the sender or the
  receiver (all up to letter case). For a receipt whose logs come from A, A, B, the variant
  with emission counts produces exactly four nodes, not five: the sender, the receiver
  (with no events), one node for A with emission count 2 and one node for B with emission
  count 1.
\<close>

theorem three_logs_four_nodes:
  assumes "receipt_logs r = [\<lparr> log_address = A \<rparr>, \<lparr> log_address = A \<rparr>, \<lparr> log_address = B \<rparr>]"
    and "truthy (receipt_to r) = Some R"
    and "toLowerCase A \<noteq> toLowerCase B"
    and "toLowerCase R \<noteq> toLowerCase A" and "toLowerCase R \<noteq> toLowerCase B"
    and "toLowerCase (receipt_from r) \<noteq> toLowerCase A"
    and "toLowerCase (receipt_from r) \<noteq> toLowerCase B"
  shows "fst (synthesize r t) =
     [sender_node r,
      \<lparr> node_id = toLowerCase R, node_position = (300, 200),
        node_label = ''To: '' @ short R @ [CHR 0x0A] @ ''Events: 0'', node_style = Some [] \<rparr>,
      \<lparr> node_id = toLowerCase A, node_position = (550, 50),
        node_label = ''Contract: '' @ short (toLowerCase A) @ [CHR 0x0A] @ ''Events: 2'',
        node_style = Some (weighted_style 2) \<rparr>,
      \<lparr> node_id = toLowerCase B, node_position = (550, 170),
        node_label = ''Contract: '' @ short (toLowerCase B) @ [CHR 0x0A] @ ''Events: 1'',
        node_style = Some (weighted_style 1) \<rparr>]"
proof -
  define lc where "lc = count_logs (receipt_logs r)"
  have cA: "get_count lc (toLowerCase A) = 2"
    using assms(3) by (simp add: lc_def assms(1) count_logs_def count_log_def get_count_def)
  have cB: "get_count lc (toLowerCase B) = 1"
    using assms(3) by (simp add: lc_def assms(1) count_logs_def count_log_def get_count_def)
  have cR: "get_count lc (toLowerCase R) = 0"
    using assms(4,5) by (simp add: lc_def assms(1) count_logs_def count_log_def get_count_def)
  have u: "uniqueLogAddresses r = [toLowerCase A, toLowerCase B]"
    using assms(3) by (simp add: uniqueLogAddresses_def assms(1) Set_values_def Set_add_def)
  show ?thesis
    using assms(3-7) cA cB cR
    by (simp add: synthesize_def step2_nodes_def Let_def assms(2) u lc_def [symmetric]
        receiver_node_def contract_node_def toString_0 toString_1 toString_2)
qed

theorem three_logs_four_nodes_witness:
  "length (fst (synthesize three_log_receipt one_ether)) = 4 \<and>
   map node_id (fst (synthesize three_log_receipt one_ether)) =
     [''0xa1'', ''0xf4'', ''0xc3'', ''0xb2''] \<and>
   map node_label (fst (synthesize three_log_receipt one_ether)) =
     [''From: 0xa1...0xa1'', ''To: 0xf4...0xf4'' @ [CHR 0x0A] @ ''Events: 0'',
      ''Contract: 0xc3...0xc3'' @ [CHR 0x0A] @ ''Events: 2'',
      ''Contract: 0xb2...0xb2'' @ [CHR 0x0A] @ ''Events: 1'']"
proof -
  have l: "receipt_logs three_log_receipt =
      [\<lparr> log_address = ''0xC3'' \<rparr>, \<lparr> log_address = ''0xC3'' \<rparr>, \<lparr> log_address = ''0xb2'' \<rparr>]"
    by (simp add: three_log_receipt_def)
  have to: "truthy (receipt_to three_log_receipt) = Some ''0xf4''"
    by (simp add: three_log_receipt_def truthy_def)
  have lw: "toLowerCase ''0xC3'' = ''0xc3''"
    by (simp add: toLowerCase_def toLowerCase_char_def char_eval)
  have f: "receipt_from three_log_receipt = ''0xa1''"
    by (simp add: three_log_receipt_def)
  have sh: "short ''0xa1'' = ''0xa1...0xa1''" "short ''0xf4'' = ''0xf4...0xf4''"
    "short ''0xc3'' = ''0xc3...0xc3''" "short ''0xb2'' = ''0xb2...0xb2''"
    by (simp_all add: short_def slice_def slice_from_def)
  show ?thesis
    using three_logs_four_nodes [OF l to, of one_ether]
    by (simp add: lw lower_short f sender_node_def sh)
qed

section \<open>The label of the transfer\<close>

text \<open>
  Claim C4. With a receiver present, the edge from the sender to the receiver is labelled
  with \<open>formatEther\<close> of the transferred value followed by the unit. The numeral that
  \<open>formatEther\<close> writes denotes exactly the value divided by \<open>10^18\<close>, as a rational
  number, and a value of \<open>1000000000000000000\<close> is written \<open>1\<close>.
\<close>

theorem ether_label_exact:
  assumes "truthy (receipt_to r) = Some to"
  shows "edge_label (hd (snd (synthesize r t))) =
           Some (formatEther (transaction_value t) @ '' ETH'') \<and>
         edge_label (hd (snd (page_synthesize r t))) =
           Some (formatEther (transaction_value t) @ '' ETH'') \<and>
         decimal_value (formatEther (transaction_value t)) =
           of_nat (transaction_value t) / 10 ^ 18 \<and>
         formatEther 1000000000000000000 = ''1''"
  by (simp add: edges_Some [OF assms] page_edges_Some [OF assms] formatEther_one)
     (simp add: formatEther_def decimal_value_formatUnits)

theorem ether_label_exact_witness:
  "truthy (receipt_to call_receipt) = Some ''0xBb02'' \<and>
   transaction_value one_ether = 1000000000000000000 \<and>
   edge_label (hd (snd (synthesize call_receipt one_ether))) = Some ''1 ETH'' \<and>
   edge_label (hd (snd (page_synthesize call_receipt one_ether))) = Some ''1 ETH'' \<and>
   decimal_value ''1'' = 1"
proof -
  have some: "truthy (receipt_to call_receipt) = Some ''0xBb02''"
    by (simp add: call_receipt_def truthy_def)
  have v: "transaction_value one_ether = 1000000000000000000"
    by (simp add: one_ether_def)
  note e = ether_label_exact [OF some, of one_ether, unfolded v]
  have one: "formatEther 1000000000000000000 = ''1''"
    using e by blast
  have "decimal_value (formatEther 1000000000000000000) = rat_of_nat 1000000000000000000 / 10 ^ 18"
    using e by blast
  then have d: "decimal_value ''1'' = 1"
    unfolding one by simp
  have l1: "edge_label (hd (snd (synthesize call_receipt one_ether))) = Some ''1 ETH''"
    using e unfolding one by simp
  have l2: "edge_label (hd (snd (page_synthesize call_receipt one_ether))) = Some ''1 ETH''"
    using e unfolding one by simp
  show ?thesis
    using some v d l1 l2 by simp
qed

section \<open>The validator\<close>

text \<open>
  Claim C5. The analyse handler accepts the input exactly when it has the format of a
  transaction hash, \<open>0x\<close> followed by exactly 64 hexadecimal characters in either case:
  then it makes the input the target hash and shows no error. Every other input is
  rejected: the page shows the validation message, the target hash is removed, the summary,
  the nodes and the edges of an earlier analysis are cleared, and the effect that follows
  sends no request.
\<close>

theorem validator:
  "(hash_format (inputHash s) \<longrightarrow>
      handleAnalyse s = s\<lparr> error := None, targetHash := Some (inputHash s) \<rparr>) \<and>
   (\<not> hash_format (inputHash s) \<longrightarrow>
      fst (analyse synth env s) =
        s\<lparr> error := Some Msg_bad_format, targetHash := None, txInfo := None,
           nodes := [], edges := [] \<rparr> \<and>
      snd (analyse synth env s) = [])"
  by (auto simp: handleAnalyse_accept handleAnalyse_reject analyse_def
      useEffect_targetHash_def truthy_def)

theorem validator_witness:
  "\<not> hash_format (inputHash stale_state) \<and>
   error (fst (analyse synthesize not_found_client stale_state)) = Some Msg_bad_format \<and>
   targetHash (fst (analyse synthesize not_found_client stale_state)) = None \<and>
   no_result (fst (analyse synthesize not_found_client stale_state)) \<and>
   snd (analyse synthesize not_found_client stale_state) = [] \<and>
   hash_format (inputHash (stale_state\<lparr> inputHash := good_hash \<rparr>)) \<and>
   targetHash (handleAnalyse (stale_state\<lparr> inputHash := good_hash \<rparr>)) = Some good_hash \<and>
   error (handleAnalyse (stale_state\<lparr> inputHash := good_hash \<rparr>)) = None"
proof -
  have bad: "\<not> hash_format (inputHash stale_state)"
    by (simp add: stale_state_def hash_format_def)
  have good: "hash_format (inputHash (stale_state\<lparr> inputHash := good_hash \<rparr>))"
    by (simp add: good_hash_def hash_format_def)
  show ?thesis
    using validator [of stale_state synthesize not_found_client]
      validator [of "stale_state\<lparr> inputHash := good_hash \<rparr>" synthesize not_found_client]
      bad good
    by (simp add: no_result_def)
qed

section \<open>Errors leave no stale result\<close>

text \<open>
  Claim C6. Whenever the fetch, the analyse handler, or a whole click on the analyse button
  ends with an error message (the validation message, the missing-configuration message,
  one of the two not-found messages or the message for any other failure), the summary
  and the graph of an earlier analysis are gone, and no summary is rendered.
\<close>

theorem errors_clear_results:
  "(error (fst (fetchAndProcessTransaction synth env h s)) \<noteq> None \<longrightarrow>
      no_result (fst (fetchAndProcessTransaction synth env h s)) \<and>
      render_summary (fst (fetchAndProcessTransaction synth env h s)) = None) \<and>
   (error (handleAnalyse s) \<noteq> None \<longrightarrow>
      no_result (handleAnalyse s) \<and> render_summary (handleAnalyse s) = None) \<and>
   (error (fst (analyse synth env s)) \<noteq> None \<longrightarrow>
      no_result (fst (analyse synth env s)) \<and>
      render_summary (fst (analyse synth env s)) = None)"
proof (intro conjI impI)
  assume e: "error (fst (fetchAndProcessTransaction synth env h s)) \<noteq> None"
  from fetch_error_cleared [OF e]
  show "no_result (fst (fetchAndProcessTransaction synth env h s))"
    by (simp add: no_result_def)
  then show "render_summary (fst (fetchAndProcessTransaction synth env h s)) = None"
    by (simp add: no_result_rendering)
next
  assume e: "error (handleAnalyse s) \<noteq> None"
  from handleAnalyse_error_cleared [OF e]
  show "no_result (handleAnalyse s)"
    by (simp add: no_result_def)
  then show "render_summary (handleAnalyse s) = None"
    by (simp add: no_result_rendering)
next
  assume e: "error (fst (analyse synth env s)) \<noteq> None"
  from analyse_error_cleared [OF e]
  show "no_result (fst (analyse synth env s))"
    by (simp add: no_result_def)
  then show "render_summary (fst (analyse synth env s)) = None"
    by (simp add: no_result_rendering)
qed

theorem errors_clear_results_witness:
  "error (fst (analyse synthesize unconfigured_client stale_state)) = Some Msg_bad_format \<and>
   no_result (fst (analyse synthesize unconfigured_client stale_state)) \<and>
   error (fst (analyse synthesize unconfigured_client (stale_state\<lparr> inputHash := good_hash \<rparr>)))
     = Some Msg_url_missing \<and>
   no_result (fst (analyse synthesize unconfigured_client (stale_state\<lparr> inputHash := good_hash \<rparr>))) \<and>
   error (fst (analyse synthesize not_found_client (stale_state\<lparr> inputHash := good_hash \<rparr>)))
     = Some Msg_tx_not_found \<and>
   no_result (fst (analyse synthesize not_found_client (stale_state\<lparr> inputHash := good_hash \<rparr>))) \<and>
   error (fst (analyse synthesize failing_client (stale_state\<lparr> inputHash := good_hash \<rparr>)))
     = Some Msg_unexpected \<and>
   no_result (fst (analyse synthesize failing_client (stale_state\<lparr> inputHash := good_hash \<rparr>))) \<and>
   error (fst (analyse synthesize empty_client (stale_state\<lparr> inputHash := good_hash \<rparr>)))
     = Some Msg_info_not_found \<and>
   no_result (fst (analyse synthesize empty_client (stale_state\<lparr> inputHash := good_hash \<rparr>)))"
proof -
  have e0: "error (fst (analyse synthesize unconfigured_client stale_state)) = Some Msg_bad_format"
    by (simp add: analyse_def handleAnalyse_def useEffect_targetHash_def truthy_def
        stale_state_def hash_pattern_test_def)
  have e1: "error (fst (analyse synthesize unconfigured_client
              (stale_state\<lparr> inputHash := good_hash \<rparr>))) = Some Msg_url_missing"
    by (simp add: analyse_good_hash fetchAndProcessTransaction_def unconfigured_client_def
        truthy_def)
  have e2: "error (fst (analyse synthesize not_found_client
              (stale_state\<lparr> inputHash := good_hash \<rparr>))) = Some Msg_tx_not_found"
    by (simp add: analyse_good_hash fetchAndProcessTransaction_def not_found_client_def
        truthy_def Promise_all_def catch_message_def)
  have e3: "error (fst (analyse synthesize failing_client
              (stale_state\<lparr> inputHash := good_hash \<rparr>))) = Some Msg_unexpected"
    by (simp add: analyse_good_hash fetchAndProcessTransaction_def failing_client_def
        truthy_def Promise_all_def catch_message_def)
  have e4: "error (fst (analyse synthesize empty_client
              (stale_state\<lparr> inputHash := good_hash \<rparr>))) = Some Msg_info_not_found"
    by (simp add: analyse_good_hash fetchAndProcessTransaction_def empty_client_def
        truthy_def Promise_all_def)
  show ?thesis
    using e0 e1 e2 e3 e4
      errors_clear_results [of synthesize unconfigured_client good_hash stale_state]
      errors_clear_results [of synthesize unconfigured_client good_hash
        "stale_state\<lparr> inputHash := good_hash \<rparr>"]
      errors_clear_results [of synthesize not_found_client good_hash
        "stale_state\<lparr> inputHash := good_hash \<rparr>"]
      errors_clear_results [of synthesize failing_client good_hash
        "stale_state\<lparr> inputHash := good_hash \<rparr>"]
      errors_clear_results [of synthesize empty_client good_hash
        "stale_state\<lparr> inputHash := good_hash \<rparr>"]
    by simp
qed

section \<open>A transaction that is not found\<close>

text \<open>
  Claim C7. When the receipt request resolves and the transaction request is rejected with
  a \<open>TransactionNotFoundError\<close>, the joined request fails: the page shows the message
  for a transaction that was not found, and the summary, the nodes and the edges are
  empty, so that the flow chart shows its placeholder and no graph built from the receipt.
\<close>

theorem not_found_join:
  assumes "truthy (ALCHEMY_URL env) \<noteq> None"
    and "getTransaction env h = Rejected (Error_named ''TransactionNotFoundError'')"
    and "getTransactionReceipt env h = Fulfilled receipt"
  shows "fst (fetchAndProcessTransaction synth env h s) =
           s\<lparr> isLoading := False, error := Some Msg_tx_not_found, txInfo := None,
              nodes := [], edges := [] \<rparr> \<and>
         FlowChart (nodes (fst (fetchAndProcessTransaction synth env h s)))
           (edges (fst (fetchAndProcessTransaction synth env h s))) = Placeholder"
  using assms
  by (cases "truthy (ALCHEMY_URL env)")
    (simp_all add: fetchAndProcessTransaction_def Let_def Promise_all_def catch_message_def
      FlowChart_def)

theorem not_found_join_witness:
  "truthy (ALCHEMY_URL not_found_client) \<noteq> None \<and>
   getTransaction not_found_client good_hash = Rejected (Error_named ''TransactionNotFoundError'') \<and>
   getTransactionReceipt not_found_client good_hash = Fulfilled (Some call_receipt) \<and>
   error (fst (fetchAndProcessTransaction synthesize not_found_client good_hash stale_state))
     = Some Msg_tx_not_found \<and>
   nodes (fst (fetchAndProcessTransaction synthesize not_found_client good_hash stale_state)) = [] \<and>
   edges (fst (fetchAndProcessTransaction synthesize not_found_client good_hash stale_state)) = [] \<and>
   nodes stale_state \<noteq> []"
proof -
  have a: "truthy (ALCHEMY_URL not_found_client) \<noteq> None"
    by (simp add: not_found_client_def truthy_def)
  have b: "getTransaction not_found_client good_hash =
             Rejected (Error_named ''TransactionNotFoundError'')"
    by (simp add: not_found_client_def)
  have c: "getTransactionReceipt not_found_client good_hash = Fulfilled (Some call_receipt)"
    by (simp add: not_found_client_def)
  have d: "nodes stale_state \<noteq> []"
    by (simp add: stale_state_def synthesize_def step2_nodes_nonempty)
  show ?thesis
    using not_found_join [OF a b c, of synthesize stale_state] a b c d by simp
qed

section \<open>Contract creation\<close>

text \<open>
  Claim C8. When both requests resolve and the receipt has no receiver address, both
  variants produce no edge from the sender to a receiver (indeed no edge), and the
  receiver field of the summary shows the creation indicator instead of an address.
\<close>

theorem contract_creation:
  assumes "truthy (ALCHEMY_URL env) \<noteq> None"
    and "getTransaction env h = Fulfilled (Some t)"
    and "getTransactionReceipt env h = Fulfilled (Some r)"
    and "truthy (receipt_to r) = None"
  shows "edges (fst (fetchAndProcessTransaction synthesize env h s)) = [] \<and>
         map_option shown_to (render_summary (fst (fetchAndProcessTransaction synthesize env h s)))
           = Some ''N/A (Contract Creation)'' \<and>
         edges (fst (fetchAndProcessTransaction page_synthesize env h s)) = [] \<and>
         map_option shown_to (render_summary (fst (fetchAndProcessTransaction page_synthesize env h s)))
           = Some ''N/A (Contract Creation)''"
  unfolding fetch_success [OF assms(1-3)]
  using assms(4) by (simp add: render_summary_to edges_None page_edges_None)

theorem contract_creation_witness:
  "truthy (ALCHEMY_URL creation_client) \<noteq> None \<and>
   getTransaction creation_client good_hash = Fulfilled (Some one_ether) \<and>
   getTransactionReceipt creation_client good_hash = Fulfilled (Some creation_receipt) \<and>
   truthy (receipt_to creation_receipt) = None \<and>
   edges (fst (fetchAndProcessTransaction synthesize creation_client good_hash stale_state)) = [] \<and>
   map_option shown_to (render_summary
       (fst (fetchAndProcessTransaction synthesize creation_client good_hash stale_state)))
     = Some ''N/A (Contract Creation)''"
proof -
  have a: "truthy (ALCHEMY_URL creation_client) \<noteq> None"
    by (simp add: creation_client_def truthy_def)
  have b: "getTransaction creation_client good_hash = Fulfilled (Some one_ether)"
    by (simp add: creation_client_def)
  have c: "getTransactionReceipt creation_client good_hash = Fulfilled (Some creation_receipt)"
    by (simp add: creation_client_def)
  have d: "truthy (receipt_to creation_receipt) = None"
    by (simp add: creation_receipt_def truthy_def)
  show ?thesis
    using contract_creation [OF a b c d, of stale_state] a b c d by simp
qed

section \<open>Transactions without a receiver\<close>

text \<open>
  Claim C9. When the receiver address of the receipt is absent (\<open>null\<close>, or any other falsy
  value), the synthesized edge list is empty in both variants: there is no edge from the
  sender and no edge to a log-emitting contract, so the contract nodes of the logs are
  isolated.
\<close>

theorem no_receiver_no_edges:
  "truthy (receipt_to r) = None \<Longrightarrow>
   snd (synthesize r t) = [] \<and> snd (page_synthesize r t) = []"
  by (simp add: edges_None page_edges_None)

theorem no_receiver_no_edges_witness:
  "truthy (receipt_to creation_receipt) = None \<and>
   snd (synthesize creation_receipt one_ether) = [] \<and>
   snd (page_synthesize creation_receipt one_ether) = [] \<and>
   length (fst (synthesize creation_receipt one_ether)) = 2 \<and>
   length (fst (page_synthesize creation_receipt one_ether)) = 3"
proof -
  have h: "truthy (receipt_to creation_receipt) = None"
    by (simp add: creation_receipt_def truthy_def)
  have n1: "length (fst (synthesize creation_receipt one_ether)) = 2"
    by (simp add: synthesize_def step2_nodes_def creation_receipt_def truthy_def
        uniqueLogAddresses_def Set_values_def Set_add_def toLowerCase_def toLowerCase_char_def char_eval)
  have n2: "length (fst (page_synthesize creation_receipt one_ether)) = 3"
    by (simp add: fst_page_synthesize creation_receipt_def truthy_def)
  show ?thesis
    using no_receiver_no_edges [OF h, of one_ether] h n1 n2 by simp
qed

section \<open>Edges connect nodes of the same run\<close>

text \<open>
  Claim C10. In both variants, the source and the target of every synthesized edge are ids
  of nodes in the node list of the same run.
\<close>

theorem edges_join_nodes:
  "(\<forall>e \<in> set (snd (synthesize r t)).
      edge_source e \<in> node_id ` set (fst (synthesize r t)) \<and>
      edge_target e \<in> node_id ` set (fst (synthesize r t))) \<and>
   (\<forall>e \<in> set (snd (page_synthesize r t)).
      edge_source e \<in> node_id ` set (fst (page_synthesize r t)) \<and>
      edge_target e \<in> node_id ` set (fst (page_synthesize r t)))"
proof (cases "truthy (receipt_to r)")
  case None
  then show ?thesis
    by (simp add: edges_None page_edges_None)
next
  case (Some to)
  have ids: "node_id ` set (fst (synthesize r t)) =
      insert (toLowerCase (receipt_from r)) (insert (toLowerCase to)
        (set (uniqueLogAddresses r)))"
    using arg_cong [OF step2_nodes_ids_Some [OF Some], of set]
    by (auto simp: synthesize_def)
  have first: "\<forall>e \<in> set (snd (synthesize r t)).
      edge_source e \<in> node_id ` set (fst (synthesize r t)) \<and>
      edge_target e \<in> node_id ` set (fst (synthesize r t))"
    unfolding ids
    by (auto simp: synthesize_def step3_edges_def Some sender_edge_def contract_edge_def)
  have pids: "node_id ` set (fst (page_synthesize r t)) =
      insert (receipt_from r) (insert to (log_address ` set (receipt_logs r)))"
    using page_ids_Some [OF Some, of t] by simp
  have second: "\<forall>e \<in> set (snd (page_synthesize r t)).
      edge_source e \<in> node_id ` set (fst (page_synthesize r t)) \<and>
      edge_target e \<in> node_id ` set (fst (page_synthesize r t))"
    unfolding pids page_edges_Some [OF Some]
    by (auto simp: page_sender_edge_def page_log_edge_def in_set_enumerate_eq)
  from first second show ?thesis ..
qed

theorem edges_join_nodes_witness:
  "sender_edge call_receipt one_ether ''0xBb02'' \<in> set (snd (synthesize call_receipt one_ether)) \<and>
   edge_source (sender_edge call_receipt one_ether ''0xBb02'')
     \<in> node_id ` set (fst (synthesize call_receipt one_ether)) \<and>
   edge_target (sender_edge call_receipt one_ether ''0xBb02'')
     \<in> node_id ` set (fst (synthesize call_receipt one_ether)) \<and>
   page_sender_edge call_receipt one_ether ''0xBb02''
     \<in> set (snd (page_synthesize call_receipt one_ether)) \<and>
   edge_source (page_sender_edge call_receipt one_ether ''0xBb02'')
     \<in> node_id ` set (fst (page_synthesize call_receipt one_ether)) \<and>
   edge_target (page_sender_edge call_receipt one_ether ''0xBb02'')
     \<in> node_id ` set (fst (page_synthesize call_receipt one_ether))"
proof -
  have to: "truthy (receipt_to call_receipt) = Some ''0xBb02''"
    by (simp add: call_receipt_def truthy_def)
  have m1: "sender_edge call_receipt one_ether ''0xBb02''
              \<in> set (snd (synthesize call_receipt one_ether))"
    by (simp add: synthesize_def step3_edges_def to)
  have m2: "page_sender_edge call_receipt one_ether ''0xBb02''
              \<in> set (snd (page_synthesize call_receipt one_ether))"
    by (simp add: page_edges_Some [OF to])
  show ?thesis
    using edges_join_nodes [of call_receipt one_ether] m1 m2 by blast
qed

end
